theory Spec2Isabelle
  imports Complex_Main "HOL-Library.AList" "HOL-Library.FSet" "HOL-Library.Sublist"
begin

section \<open>Python values and strings\<close>

text \<open>
  Conventions of the embedding. Text is an ASCII \<open>string\<close>; a raised exception is the
  \<open>Inl\<close> branch of a sum. Retrieval scores are exact reals (their rounding is not modelled);
  the numbers of the math verifier are IEEE doubles (see there). Integers that
  reach a slice or an index are \<open>int\<close>, with Python's meaning for negative values.

  \<^item> \<open>lower\<close> is \<open>str.lower\<close> on ASCII letters.
  \<^item> \<open>py_in kw s\<close> is the substring test \<open>kw in s\<close>.
  \<^item> \<open>py_slice_to xs k\<close> is the slice \<open>xs[:k]\<close>: a negative \<open>k\<close> drops that many elements
    from the end.
  \<^item> \<open>py_getitem xs i\<close> is \<open>xs[i]\<close>: a negative index counts from the end, and a position
    outside the list raises \<open>IndexError\<close>.
  \<^item> \<open>py_split\<close> is \<open>str.split()\<close>: it cuts at runs of ASCII whitespace.
\<close>

definition lower_char :: "char \<Rightarrow> char" where
  "lower_char c =
     (case map_of (zip ''ABCDEFGHIJKLMNOPQRSTUVWXYZ'' ''abcdefghijklmnopqrstuvwxyz'') c of
        Some l \<Rightarrow> l | None \<Rightarrow> c)"

definition lower :: "string \<Rightarrow> string" where
  "lower s = map lower_char s"

fun py_in :: "string \<Rightarrow> string \<Rightarrow> bool" where
  "py_in kw [] = (kw = [])"
| "py_in kw (c # cs) = (prefix kw (c # cs) \<or> py_in kw cs)"

definition py_slice_to :: "'a list \<Rightarrow> int \<Rightarrow> 'a list" where
  "py_slice_to xs k = (if 0 \<le> k then take (nat k) xs else take (length xs - nat (- k)) xs)"

datatype py_error = IndexError | AttributeError

definition py_getitem :: "'a list \<Rightarrow> int \<Rightarrow> py_error + 'a" where
  "py_getitem xs i =
     (let n = int (length xs)
      in if 0 \<le> i \<and> i < n then Inr (xs ! nat i)
         else if - n \<le> i \<and> i < 0 then Inr (xs ! nat (n + i))
         else Inl IndexError)"

definition is_space :: "char \<Rightarrow> bool" where
  "is_space c = (c \<in> set [CHR '' '', CHR 0x09, CHR 0x0A, CHR 0x0B, CHR 0x0C, CHR 0x0D,
                           CHR 0x1C, CHR 0x1D, CHR 0x1E, CHR 0x1F])"

fun split_ws :: "string \<Rightarrow> string \<Rightarrow> string list" where
  "split_ws cur [] = (if cur = [] then [] else [cur])"
| "split_ws cur (c # cs) =
     (if is_space c then (if cur = [] then split_ws [] cs else cur # split_ws [] cs)
      else split_ws (cur @ [c]) cs)"

definition py_split :: "string \<Rightarrow> string list" where
  "py_split s = split_ws [] s"

section \<open>Data model\<close>

text \<open>
  An evidence piece (and every stage-B retrieval result) is a dictionary with the keys
  \<open>content\<close>, \<open>metadata\<close> and \<open>score\<close>; its metadata carries the filing, the content type
  and the section title.
\<close>

record metadata =
  ticker :: string
  fiscal_year :: int
  content_type :: string
  section_title :: string

record result =
  content :: string
  metadata :: metadata
  score :: real

section \<open>Query router: \<open>retrieval/query_router.py\<close>\<close>

text \<open>
  \<open>table_keywords\<close> and \<open>math_keywords\<close> are the two lists set up by the constructor of
  \<open>QueryRouter\<close>. \<open>router_is_table_centric\<close> and \<open>router_requires_math\<close> are its methods
  \<open>_is_table_centric\<close> and \<open>_requires_math\<close>; both receive the lower-cased query from \<open>route\<close>.
\<close>

datatype query_type = numeric_table | table_lookup | numeric_text | narrative

record route_info =
  query_type :: query_type
  is_table_centric :: bool
  requires_math :: bool
  confidence :: real

definition table_keywords :: "string list" where
  "table_keywords =
     [''yoy'', ''year-over-year'', ''change'', ''growth'', ''ratio'',
      ''compared to'', ''versus'', ''vs'', ''percentage'', ''%'',
      ''segment'', ''total'', ''revenue'', ''expense'', ''debt'', ''equity'',
      ''fiscal year'', ''fy'', ''2022'', ''2023'', ''2024'']"

definition math_keywords :: "string list" where
  "math_keywords =
     [''calculate'', ''compute'', ''difference'', ''sum'', ''total'',
      ''ratio'', ''percentage'', ''change'', ''growth'', ''increase'', ''decrease'']"

definition router_is_table_centric :: "string \<Rightarrow> bool" where
  "router_is_table_centric query =
     (let keyword_count = sum_list (map (\<lambda>kw. 1 :: nat) (filter (\<lambda>kw. py_in kw query) table_keywords))
      in keyword_count \<ge> 2)"

definition router_requires_math :: "string \<Rightarrow> bool" where
  "router_requires_math query = list_ex (\<lambda>kw. py_in kw query) math_keywords"

definition route :: "string \<Rightarrow> route_info" where
  "route query =
     (let query_lower = lower query;
          tc = router_is_table_centric query_lower;
          rm = router_requires_math query_lower;
          qt = (if tc \<and> rm then numeric_table
                else if tc then table_lookup
                else if rm then numeric_text
                else narrative);
          conf = (if tc then 0.8 else 0.6)
      in \<lparr>query_type = qt, is_table_centric = tc, requires_math = rm, confidence = conf\<rparr>)"

section \<open>Evaluation metrics: \<open>evaluation/metrics.py\<close>\<close>

text \<open>
  The set of relevant items is a finite set; the cutoff \<open>k\<close> is a Python integer.
\<close>

definition compute_recall_at_k :: "'a list \<Rightarrow> 'a fset \<Rightarrow> int \<Rightarrow> real" where
  "compute_recall_at_k retrieved relevant k =
     (if fcard relevant = 0 then 0
      else let retrieved_at_k = fset_of_list (py_slice_to retrieved k);
               num_relevant_retrieved = fcard (retrieved_at_k |\<inter>| relevant)
           in real num_relevant_retrieved / real (fcard relevant))"

section \<open>Math verifier: \<open>qa/math_verifier.py\<close>\<close>

subsection \<open>The number pattern\<close>

text \<open>
  \<open>match_number\<close> is one attempt of the regular expression
  \<^verbatim>\<open>-?\d+\.?\d*(?:[MBmb]|million|billion|thousand)?\<close> at the start of a string; it returns
  the matched text and the rest of the input. Every quantifier is greedy and everything after the
  first run of digits is optional, so the first greedy attempt is the match. The alternatives of
  the unit group are tried in the order in which they are written (\<open>match_unit\<close>). \<open>findall\<close> is
  \<open>re.findall\<close>: it scans from left to right, resumes behind a match, and moves on by one
  character where no match starts.
\<close>

definition is_digit :: "char \<Rightarrow> bool" where
  "is_digit c = (c \<in> set ''0123456789'')"

definition match_unit :: "string \<Rightarrow> string \<times> string" where
  "match_unit s =
     (case s of
        [] \<Rightarrow> ([], [])
      | c # cs \<Rightarrow>
          if c \<in> set ''MBmb'' then ([c], cs)
          else if prefix ''million'' s then (''million'', drop 7 s)
          else if prefix ''billion'' s then (''billion'', drop 7 s)
          else if prefix ''thousand'' s then (''thousand'', drop 8 s)
          else ([], s))"

definition match_point :: "string \<Rightarrow> string \<times> string" where
  "match_point s = (case s of [] \<Rightarrow> ([], []) | c # cs \<Rightarrow> if c = CHR ''.'' then ([c], cs) else ([], s))"

definition match_unsigned :: "string \<Rightarrow> (string \<times> string) option" where
  "match_unsigned s =
     (let d1 = takeWhile is_digit s; r1 = dropWhile is_digit s
      in if d1 = [] then None
         else let (pt, r2) = match_point r1;
                  d2 = takeWhile is_digit r2; r3 = dropWhile is_digit r2;
                  (u, r4) = match_unit r3
              in Some (d1 @ pt @ d2 @ u, r4))"

definition match_number :: "string \<Rightarrow> (string \<times> string) option" where
  "match_number s =
     (case s of
        [] \<Rightarrow> None
      | c # cs \<Rightarrow>
          if c = CHR ''-'' then
            (case match_unsigned cs of
               Some (m, r) \<Rightarrow> Some (c # m, r)
             | None \<Rightarrow> match_unsigned s)
          else match_unsigned s)"

lemma match_unit_length: "match_unit s = (u, r) \<Longrightarrow> length r \<le> length s"
  by (auto simp: match_unit_def split: list.splits if_splits)

lemma match_point_length: "match_point s = (pt, r) \<Longrightarrow> length r \<le> length s"
  by (cases s) (auto simp: match_point_def split: if_splits)

lemma match_unsigned_length: "match_unsigned s = Some (m, r) \<Longrightarrow> length r < length s"
proof -
  assume a: "match_unsigned s = Some (m, r)"
  have d: "length (dropWhile is_digit t) \<le> length t" for t
    by (simp add: length_dropWhile_le)
  from a have ne: "takeWhile is_digit s \<noteq> []"
    by (auto simp: match_unsigned_def Let_def split: if_splits)
  have "length s = length (takeWhile is_digit s) + length (dropWhile is_digit s)"
    by (metis length_append takeWhile_dropWhile_id)
  with ne have "length (dropWhile is_digit s) < length s"
    by (cases "takeWhile is_digit s") simp_all
  moreover obtain pt r2 where p: "match_point (dropWhile is_digit s) = (pt, r2)" by fastforce
  then have "length r2 \<le> length (dropWhile is_digit s)" by (rule match_point_length)
  moreover obtain u r4 where u: "match_unit (dropWhile is_digit r2) = (u, r4)" by fastforce
  then have "length r4 \<le> length (dropWhile is_digit r2)" by (rule match_unit_length)
  moreover have "r = r4" using a ne p u by (simp add: match_unsigned_def Let_def)
  ultimately show ?thesis using d [of r2] by simp
qed

lemma match_number_length: "match_number s = Some (m, r) \<Longrightarrow> length r < length s"
  by (auto simp: match_number_def split: list.splits if_splits option.splits
      dest!: match_unsigned_length)

function findall :: "string \<Rightarrow> string list" where
  "findall [] = []"
| "findall (c # cs) =
     (case match_number (c # cs) of
        Some (m, r) \<Rightarrow> m # findall r
      | None \<Rightarrow> findall cs)"
  by pat_completeness auto
termination
  by (relation "measure length") (auto dest: match_number_length)

subsection \<open>Floating-point numbers\<close>

text \<open>
  A Python float is an IEEE 754 double: a finite value, one of the two infinities, or a
  not-a-number. The two zeros are identified, since the verifier only compares and takes absolute
  values. \<open>to_double\<close> rounds a real number to the nearest double, ties to the even
  mantissa: the spacing of the doubles around \<open>x\<close> is \<open>2 ^ e\<close> for
  \<open>e = max (\<lfloor>log\<^sub>2 x\<rfloor> - 52) (-1074)\<close>, and a result of \<open>2 ^ 1024\<close> or more
  is an infinity. \<open>fl_sub\<close>, \<open>fl_mul\<close> and \<open>fl_div\<close> are the correctly rounded operations,
  and \<open>fl_less\<close> is the comparison \<open><\<close>, which is false on a not-a-number. Python raises
  on a division by zero; every division of the verifier is guarded by a test against zero, and
  \<open>fl_div\<close> gives a not-a-number there.
\<close>

datatype pyfloat = Fin real | PInf | NInf | NaN

function bit_length :: "nat \<Rightarrow> nat" where
  "bit_length n = (if n = 0 then 0 else Suc (bit_length (n div 2)))"
  by pat_completeness auto
termination
  by (relation "measure id") auto

declare bit_length.simps [simp del]

definition pow2 :: "int \<Rightarrow> real" where
  "pow2 e = (if 0 \<le> e then 2 ^ nat e else 1 / 2 ^ nat (- e))"

definition floor_log2 :: "real \<Rightarrow> int" where
  "floor_log2 x =
     (if 1 \<le> x then int (bit_length (nat \<lfloor>x\<rfloor>)) - 1
      else - int (bit_length (nat (\<lceil>1 / x\<rceil> - 1))))"

definition round_half_even :: "real \<Rightarrow> int" where
  "round_half_even y =
     (let f = \<lfloor>y\<rfloor>; r = y - of_int f
      in if r < 1 / 2 then f
         else if 1 / 2 < r then f + 1
         else if even f then f else f + 1)"

definition round_pos :: "real \<Rightarrow> real" where
  "round_pos x =
     (let e = max (floor_log2 x - 52) (- 1074)
      in of_int (round_half_even (x / pow2 e)) * pow2 e)"

definition to_double :: "real \<Rightarrow> pyfloat" where
  "to_double x =
     (if x = 0 then Fin 0
      else let y = round_pos \<bar>x\<bar>
           in if 2 ^ 1024 \<le> y then (if 0 < x then PInf else NInf)
              else Fin (if 0 < x then y else - y))"

fun fl_negative :: "pyfloat \<Rightarrow> bool" where
  "fl_negative (Fin x) = (x < 0)"
| "fl_negative NInf = True"
| "fl_negative _ = False"

fun fl_abs :: "pyfloat \<Rightarrow> pyfloat" where
  "fl_abs (Fin x) = Fin \<bar>x\<bar>"
| "fl_abs NInf = PInf"
| "fl_abs a = a"

fun fl_sub :: "pyfloat \<Rightarrow> pyfloat \<Rightarrow> pyfloat" where
  "fl_sub NaN b = NaN"
| "fl_sub a NaN = NaN"
| "fl_sub (Fin x) (Fin y) = to_double (x - y)"
| "fl_sub PInf PInf = NaN"
| "fl_sub NInf NInf = NaN"
| "fl_sub PInf b = PInf"
| "fl_sub NInf b = NInf"
| "fl_sub a PInf = NInf"
| "fl_sub a NInf = PInf"

fun fl_mul :: "pyfloat \<Rightarrow> pyfloat \<Rightarrow> pyfloat" where
  "fl_mul NaN b = NaN"
| "fl_mul a NaN = NaN"
| "fl_mul (Fin x) (Fin y) = to_double (x * y)"
| "fl_mul a b =
     (if a = Fin 0 \<or> b = Fin 0 then NaN
      else if fl_negative a = fl_negative b then PInf else NInf)"

fun fl_div :: "pyfloat \<Rightarrow> pyfloat \<Rightarrow> pyfloat" where
  "fl_div NaN b = NaN"
| "fl_div a NaN = NaN"
| "fl_div (Fin x) (Fin y) = (if y = 0 then NaN else to_double (x / y))"
| "fl_div (Fin x) b = Fin 0"
| "fl_div a (Fin y) = (if y = 0 then NaN else if fl_negative a = (y < 0) then PInf else NInf)"
| "fl_div a b = NaN"

fun fl_less :: "pyfloat \<Rightarrow> pyfloat \<Rightarrow> bool" where
  "fl_less NaN b = False"
| "fl_less a NaN = False"
| "fl_less (Fin x) (Fin y) = (x < y)"
| "fl_less a NInf = False"
| "fl_less NInf b = True"
| "fl_less PInf b = False"
| "fl_less a PInf = True"

subsection \<open>From matched text to numbers\<close>

text \<open>
  \<open>strip_units\<close> is the call of \<open>re.sub\<close> that deletes every unit from a match, and
  \<open>py_float\<close> is \<open>float\<close> on the strings that remain: an optional sign, digits, and an optional
  point followed by digits (\<open>None\<close> stands for \<open>ValueError\<close>); the decimal is rounded to the
  nearest double. \<open>apply_multiplier\<close> is the chain of
  tests on the matched text that scales the number, and \<open>extract_numbers_text\<close> is the part of
  \<open>extract_numbers\<close> that handles a string.
\<close>

fun strip_units :: "string \<Rightarrow> string" where
  "strip_units [] = []"
| "strip_units (c # cs) =
     (if c \<in> set ''MBmb'' then strip_units cs
      else if prefix ''million'' (c # cs) then strip_units (drop 7 (c # cs))
      else if prefix ''billion'' (c # cs) then strip_units (drop 7 (c # cs))
      else if prefix ''thousand'' (c # cs) then strip_units (drop 8 (c # cs))
      else c # strip_units cs)"

definition digit_val :: "char \<Rightarrow> nat" where
  "digit_val c = length (takeWhile (\<lambda>d. d \<noteq> c) ''0123456789'')"

definition digits_val :: "string \<Rightarrow> nat" where
  "digits_val ds = foldl (\<lambda>a c. 10 * a + digit_val c) 0 ds"

definition py_float :: "string \<Rightarrow> pyfloat option" where
  "py_float s =
     (let (neg, body) = (case s of [] \<Rightarrow> (False, s)
                         | c # cs \<Rightarrow> if c = CHR ''-'' then (True, cs) else (False, s));
          ip = takeWhile is_digit body; r = dropWhile is_digit body;
          (fp, rest) = (case r of [] \<Rightarrow> ([], [])
                        | c # cs \<Rightarrow> if c = CHR ''.'' then (takeWhile is_digit cs, dropWhile is_digit cs)
                                   else ([], r))
      in if ip = [] \<or> rest \<noteq> [] then None
         else Some (to_double ((if neg then - 1 else 1) *
                    (real (digits_val ip) + real (digits_val fp) / 10 ^ length fp))))"

definition apply_multiplier :: "string \<Rightarrow> pyfloat \<Rightarrow> pyfloat" where
  "apply_multiplier m num =
     (if py_in ''B'' m \<or> py_in ''billion'' (lower m) then fl_mul num (Fin 1000000000)
      else if py_in ''M'' m \<or> py_in ''million'' (lower m) then fl_mul num (Fin 1000000)
      else if py_in ''thousand'' (lower m) then fl_mul num (Fin 1000)
      else num)"

fun convert_matches :: "string list \<Rightarrow> pyfloat list" where
  "convert_matches [] = []"
| "convert_matches (m # ms) =
     (case py_float (strip_units m) of
        None \<Rightarrow> convert_matches ms
      | Some num \<Rightarrow> apply_multiplier m num # convert_matches ms)"

definition extract_numbers_text :: "string \<Rightarrow> pyfloat list" where
  "extract_numbers_text text_str = convert_matches (findall text_str)"

subsection \<open>Lists of evidence\<close>

text \<open>
  The argument of \<open>extract_numbers\<close> is any Python value: a string, a list, a dictionary (an
  association list from keys to values) or some other object, which is represented by its
  rendering under \<open>str\<close>. The rendering of a list or a dictionary is left open as the parameter
  \<open>render\<close>. \<open>dict_get d k dflt\<close> is \<open>d.get(k, dflt)\<close>.
\<close>

datatype pyval = PStr string | PList "pyval list" | PDict "(string \<times> pyval) list" | PObj string

fun py_str :: "(pyval \<Rightarrow> string) \<Rightarrow> pyval \<Rightarrow> string" where
  "py_str render (PStr s) = s"
| "py_str render (PObj r) = r"
| "py_str render v = render v"

definition dict_get :: "(string \<times> pyval) list \<Rightarrow> string \<Rightarrow> pyval \<Rightarrow> pyval" where
  "dict_get d k dflt = (case map_of d k of Some v \<Rightarrow> v | None \<Rightarrow> dflt)"

lemma size_dict_get: "size (dict_get d k (PStr s)) \<le> size_list (size_prod (\<lambda>_. 0) size) d"
proof (cases "map_of d k")
  case None
  then show ?thesis by (simp add: dict_get_def)
next
  case (Some v)
  then have "(k, v) \<in> set d" by (rule map_of_SomeD)
  then have "size_prod (\<lambda>_. 0) size (k, v) \<le> size_list (size_prod (\<lambda>_. 0) size) d"
    by (simp add: size_list_estimation')
  with Some show ?thesis by (simp add: dict_get_def)
qed

function (sequential) extract_numbers :: "(pyval \<Rightarrow> string) \<Rightarrow> pyval \<Rightarrow> pyfloat list" where
  "extract_numbers render (PList items) =
     foldl (\<lambda>all_numbers item.
              case item of
                PDict d \<Rightarrow> all_numbers @ extract_numbers render (dict_get d ''content'' (PStr []))
              | _ \<Rightarrow> all_numbers @ extract_numbers render (PStr (py_str render item)))
           [] items"
| "extract_numbers render v = extract_numbers_text (py_str render v)"
  by pat_completeness auto
termination
proof (relation "measure (\<lambda>(render, v). size v)")
  fix render :: "pyval \<Rightarrow> string" and items :: "pyval list" and item :: pyval
    and d :: "(string \<times> pyval) list"
  assume "item \<in> set items" and "item = PDict d"
  then have "size (PDict d) \<le> size_list size items"
    by (simp add: size_list_estimation')
  moreover have "size (dict_get d ''content'' (PStr [])) < size (PDict d)"
    using size_dict_get [of d "''content''" "[]"] by simp
  ultimately show "((render, dict_get d ''content'' (PStr [])), (render, PList items))
        \<in> measure (\<lambda>(render, v). size v)"
    by simp
qed simp_all

subsection \<open>Verification\<close>

text \<open>
  \<open>numbers_match\<close>, \<open>detect_calculation_type\<close>, \<open>verify_difference\<close>, \<open>verify_ratio\<close>,
  \<open>verify_percentage\<close> and \<open>verify_presence\<close> are the private methods of the same names;
  the tolerance is the field set by the constructor (\<open>default_tolerance\<close> when it is not given).
  \<open>table_evidence_numbers\<close> is the loop of \<open>verify\<close> that collects the numbers of the
  table-typed evidence.
\<close>

datatype calc_type = Difference | Ratio | Percentage | Lookup

datatype status = verified | failed | no_numbers

record verdict =
  status :: status
  message :: string

definition numbers_match :: "pyfloat \<Rightarrow> pyfloat \<Rightarrow> pyfloat \<Rightarrow> bool" where
  "numbers_match tolerance num1 num2 =
     (if num2 = Fin 0 then fl_less (fl_abs num1) tolerance
      else fl_less (fl_abs (fl_div (fl_sub num1 num2) num2)) tolerance)"

definition detect_calculation_type :: "string \<Rightarrow> string \<Rightarrow> calc_type" where
  "detect_calculation_type query answer =
     (let query_lower = lower query; answer_lower = lower answer
      in if list_ex (\<lambda>kw. py_in kw query_lower) [''change'', ''difference'', ''increase'', ''decrease'']
         then Difference
         else if list_ex (\<lambda>kw. py_in kw query_lower) [''ratio'', ''compared to'', ''per'']
         then Ratio
         else if list_ex (\<lambda>kw. py_in kw query_lower) [''percentage'', ''%'', ''percent'', ''yoy'']
         then Percentage
         else Lookup)"

definition verify_difference :: "pyfloat \<Rightarrow> pyfloat list \<Rightarrow> pyfloat list \<Rightarrow> bool" where
  "verify_difference tolerance answer_nums evidence_nums =
     (if length answer_nums < 1 \<or> length evidence_nums < 2 then False
      else list_ex (\<lambda>i. list_ex (\<lambda>j.
               numbers_match tolerance (answer_nums ! 0)
                 (fl_abs (fl_sub (evidence_nums ! i) (evidence_nums ! j))))
             [i + 1 ..< length evidence_nums])
           [0 ..< length evidence_nums])"

definition verify_ratio :: "pyfloat \<Rightarrow> pyfloat list \<Rightarrow> pyfloat list \<Rightarrow> bool" where
  "verify_ratio tolerance answer_nums evidence_nums =
     (if length answer_nums < 1 \<or> length evidence_nums < 2 then False
      else list_ex (\<lambda>i. list_ex (\<lambda>j.
               i \<noteq> j \<and> evidence_nums ! j \<noteq> Fin 0 \<and>
               numbers_match tolerance (answer_nums ! 0)
                 (fl_div (evidence_nums ! i) (evidence_nums ! j)))
             [0 ..< length evidence_nums])
           [0 ..< length evidence_nums])"

definition verify_percentage :: "pyfloat \<Rightarrow> pyfloat list \<Rightarrow> pyfloat list \<Rightarrow> bool" where
  "verify_percentage tolerance answer_nums evidence_nums =
     (if length answer_nums < 1 \<or> length evidence_nums < 2 then False
      else list_ex (\<lambda>i. list_ex (\<lambda>j.
               i \<noteq> j \<and> evidence_nums ! j \<noteq> Fin 0 \<and>
               numbers_match tolerance (answer_nums ! 0)
                 (fl_mul (fl_div (fl_sub (evidence_nums ! i) (evidence_nums ! j)) (evidence_nums ! j))
                         (Fin 100)))
             [0 ..< length evidence_nums])
           [0 ..< length evidence_nums])"

definition verify_presence :: "pyfloat \<Rightarrow> pyfloat list \<Rightarrow> pyfloat list \<Rightarrow> bool" where
  "verify_presence tolerance answer_nums evidence_nums =
     list_all (\<lambda>ans_num. list_ex (\<lambda>ev_num. numbers_match tolerance ans_num ev_num) evidence_nums)
       answer_nums"

fun table_evidence_numbers :: "result list \<Rightarrow> pyfloat list" where
  "table_evidence_numbers [] = []"
| "table_evidence_numbers (ev # evs) =
     (if content_type (metadata ev) = ''table''
      then extract_numbers_text (content ev) @ table_evidence_numbers evs
      else table_evidence_numbers evs)"

definition default_tolerance :: pyfloat where
  "default_tolerance = to_double 0.01"

definition verify :: "pyfloat \<Rightarrow> string \<Rightarrow> result list \<Rightarrow> string \<Rightarrow> verdict" where
  "verify tolerance answer evidence query =
     (let answer_numbers = extract_numbers_text answer;
          evidence_numbers = table_evidence_numbers evidence
      in if answer_numbers = [] then
           \<lparr>status = no_numbers, message = ''No numbers found in answer''\<rparr>
         else
           let calc_type = detect_calculation_type query answer;
               ok = (case calc_type of
                       Difference \<Rightarrow> verify_difference tolerance answer_numbers evidence_numbers
                     | Ratio \<Rightarrow> verify_ratio tolerance answer_numbers evidence_numbers
                     | Percentage \<Rightarrow> verify_percentage tolerance answer_numbers evidence_numbers
                     | Lookup \<Rightarrow> verify_presence tolerance answer_numbers evidence_numbers)
           in if ok then
                \<lparr>status = verified, message = ''Calculations verified against evidence''\<rparr>
              else
                \<lparr>status = failed, message = ''Calculations do not match evidence''\<rparr>)"

section \<open>Hybrid fusion\<close>

subsection \<open>Weighted score fusion: \<open>HierarchicalRetriever._merge_results\<close>\<close>

text \<open>
  The dictionary \<open>merged\<close> keeps its keys in insertion order; it is an association list, and an
  assignment to a key replaces the value where the key stands or appends a new entry
  (\<open>AList.update\<close>). \<open>merge_dense\<close> and \<open>merge_bm25\<close> are the two loops, and the result is the
  list of values in descending order of score under a stable sort.
\<close>

definition key :: "result \<Rightarrow> string" where
  "key r = take 50 (content r)"

fun merge_dense :: "real \<Rightarrow> result list \<Rightarrow> (string \<times> result) list \<Rightarrow> (string \<times> result) list" where
  "merge_dense alpha [] merged = merged"
| "merge_dense alpha (r # rs) merged =
     merge_dense alpha rs (AList.update (key r) (r\<lparr>score := alpha * score r\<rparr>) merged)"

fun merge_bm25 :: "real \<Rightarrow> result list \<Rightarrow> (string \<times> result) list \<Rightarrow> (string \<times> result) list" where
  "merge_bm25 alpha [] merged = merged"
| "merge_bm25 alpha (r # rs) merged =
     merge_bm25 alpha rs
       (case map_of merged (key r) of
          Some e \<Rightarrow> AList.update (key r) (e\<lparr>score := score e + (1 - alpha) * score r\<rparr>) merged
        | None \<Rightarrow> AList.update (key r) (r\<lparr>score := (1 - alpha) * score r\<rparr>) merged)"

definition merge_results :: "result list \<Rightarrow> result list \<Rightarrow> real \<Rightarrow> result list" where
  "merge_results dense_results bm25_results alpha =
     (let merged = merge_bm25 alpha bm25_results (merge_dense alpha dense_results [])
      in sort_key (\<lambda>x. - score x) (map snd merged))"

definition default_alpha :: real where
  "default_alpha = 0.7"

subsection \<open>Reciprocal rank fusion: \<open>retrieval/hybrid_search.py\<close>\<close>

text \<open>
  A result of the standalone searcher is identified by the value under its key \<open>id\<close> or, when it
  has none, by its rendering under \<open>str\<close>. The constructor normalises the two weights; it fails
  with a division by zero when they sum to zero. \<open>fuse_sorted_ids\<close> is the local \<open>sorted_ids\<close> of
  \<open>fuse_results\<close>.
\<close>

record 'i hit =
  hit_id :: "'i option"
  hit_str :: string

definition doc_id :: "'i hit \<Rightarrow> 'i + string" where
  "doc_id r = (case hit_id r of Some i \<Rightarrow> Inl i | None \<Rightarrow> Inr (hit_str r))"

record hybrid_searcher =
  dense_weight :: real
  bm25_weight :: real

definition hybrid_searcher_init :: "real \<Rightarrow> real \<Rightarrow> hybrid_searcher option" where
  "hybrid_searcher_init dw bw =
     (let total = dw + bw
      in if total = 0 then None
         else Some \<lparr>dense_weight = dw / total, bm25_weight = bw / total\<rparr>)"

fun rrf_dense :: "real \<Rightarrow> nat \<Rightarrow> 'i hit list \<Rightarrow> (('i + string) \<times> real) list \<Rightarrow> (('i + string) \<times> real) list" where
  "rrf_dense w rank [] scores = scores"
| "rrf_dense w rank (r # rs) scores =
     rrf_dense w (rank + 1) rs (AList.update (doc_id r) (w / (real rank + 1)) scores)"

fun rrf_bm25 :: "real \<Rightarrow> nat \<Rightarrow> 'i hit list \<Rightarrow> (('i + string) \<times> real) list \<Rightarrow> (('i + string) \<times> real) list" where
  "rrf_bm25 w rank [] scores = scores"
| "rrf_bm25 w rank (r # rs) scores =
     rrf_bm25 w (rank + 1) rs
       (case map_of scores (doc_id r) of
          Some s \<Rightarrow> AList.update (doc_id r) (s + w / (real rank + 1)) scores
        | None \<Rightarrow> AList.update (doc_id r) (w / (real rank + 1)) scores)"

definition fuse_sorted_ids ::
    "hybrid_searcher \<Rightarrow> 'i hit list \<Rightarrow> 'i hit list \<Rightarrow> (('i + string) \<times> real) list" where
  "fuse_sorted_ids S dense_results bm25_results =
     (let scores = rrf_bm25 (bm25_weight S) 0 bm25_results (rrf_dense (dense_weight S) 0 dense_results [])
      in sort_key (\<lambda>x. - snd x) scores)"

definition fuse_results ::
    "hybrid_searcher \<Rightarrow> 'i hit list \<Rightarrow> 'i hit list \<Rightarrow> int \<Rightarrow> (('i + string) \<times> real) list" where
  "fuse_results S dense_results bm25_results top_k =
     py_slice_to (fuse_sorted_ids S dense_results bm25_results) top_k"

section \<open>Hierarchical retriever: \<open>retrieval/hierarchical_retriever.py\<close>\<close>

text \<open>
  The embedding model and the three vector indices are outside the repository. A retriever holds
  them as functions: \<open>encode\<close> maps a query to its embedding, and an index maps an embedding and
  a count \<open>k\<close> to the list of pairs of a distance and a position that its \<open>search\<close> returns. A
  lexical index is the function \<open>get_scores\<close> from query tokens to one score per document. The
  three data dictionaries are spread over the fields of the record; \<open>table_data_sentences\<close> is
  \<open>None\<close> when the key is absent, and each lexical index is \<open>None\<close> when its key is absent and
  \<open>Some None\<close> when the key holds Python's \<open>None\<close>.

  \<open>collect_sections\<close>, \<open>collect_text\<close>, \<open>collect_tables\<close> and \<open>collect_bm25\<close> are the loops that
  turn positions into results. \<open>argsort\<close> is \<open>np.argsort\<close>, taken to be stable.
\<close>

record section_result =
  section_abstract :: string
  abstract_metadata :: metadata
  abstract_score :: real

record retrieval =
  sections :: "section_result list"
  retrieved_content :: "result list"

record 'e retriever =
  section_index :: "'e \<Rightarrow> int \<Rightarrow> (real \<times> int) list"
  text_index :: "'e \<Rightarrow> int \<Rightarrow> (real \<times> int) list"
  table_index :: "'e \<Rightarrow> int \<Rightarrow> (real \<times> int) list"
  section_data_abstracts :: "string list"
  section_data_metadata :: "metadata list"
  text_data_chunks :: "string list"
  text_data_metadata :: "metadata list"
  text_data_bm25 :: "(string list \<Rightarrow> real list) option option"
  table_data_sentences :: "string list option"
  table_data_metadata :: "metadata list"
  table_data_bm25 :: "(string list \<Rightarrow> real list) option option"
  encode :: "string \<Rightarrow> 'e"

fun collect_sections :: "string list \<Rightarrow> metadata list \<Rightarrow> (real \<times> int) list \<Rightarrow> py_error + section_result list" where
  "collect_sections abstracts metas [] = Inr []"
| "collect_sections abstracts metas ((dis, idx) # hits) =
     (case py_getitem abstracts idx of
        Inl e \<Rightarrow> Inl e
      | Inr a \<Rightarrow>
          (case py_getitem metas idx of
             Inl e \<Rightarrow> Inl e
           | Inr m \<Rightarrow>
               (case collect_sections abstracts metas hits of
                  Inl e \<Rightarrow> Inl e
                | Inr rs \<Rightarrow>
                    Inr (\<lparr>section_abstract = a, abstract_metadata = m,
                          abstract_score = 1 / (1 + dis)\<rparr> # rs))))"

definition retrieve_sections :: "'e retriever \<Rightarrow> string \<Rightarrow> int \<Rightarrow> py_error + section_result list" where
  "retrieve_sections R query k =
     (let query_embedding = encode R query;
          hits = section_index R query_embedding k
      in collect_sections (section_data_abstracts R) (section_data_metadata R) hits)"

fun collect_text :: "string list \<Rightarrow> metadata list \<Rightarrow> (real \<times> int) list \<Rightarrow> py_error + result list" where
  "collect_text chunks metas [] = Inr []"
| "collect_text chunks metas ((dis, idx) # hits) =
     (case py_getitem chunks idx of
        Inl e \<Rightarrow> Inl e
      | Inr c \<Rightarrow>
          (case py_getitem metas idx of
             Inl e \<Rightarrow> Inl e
           | Inr m \<Rightarrow>
               (case collect_text chunks metas hits of
                  Inl e \<Rightarrow> Inl e
                | Inr rs \<Rightarrow> Inr (\<lparr>content = c, metadata = m, score = 1 / (1 + dis)\<rparr> # rs))))"

fun collect_tables :: "string list \<Rightarrow> metadata list \<Rightarrow> (real \<times> int) list \<Rightarrow> py_error + result list" where
  "collect_tables sentences metas [] = Inr []"
| "collect_tables sentences metas ((dis, idx) # hits) =
     (if idx \<ge> int (length sentences) then collect_tables sentences metas hits
      else
        (case py_getitem metas idx of
           Inl e \<Rightarrow> Inl e
         | Inr m \<Rightarrow>
             (case py_getitem sentences idx of
                Inl e \<Rightarrow> Inl e
              | Inr c \<Rightarrow>
                  (case collect_tables sentences metas hits of
                     Inl e \<Rightarrow> Inl e
                   | Inr rs \<Rightarrow> Inr (\<lparr>content = c, metadata = m, score = 1 / (1 + dis)\<rparr> # rs)))))"

fun collect_bm25 :: "string list \<Rightarrow> metadata list \<Rightarrow> real list \<Rightarrow> nat list \<Rightarrow> py_error + result list" where
  "collect_bm25 documents metas scores [] = Inr []"
| "collect_bm25 documents metas scores (idx # idxs) =
     (case py_getitem documents (int idx) of
        Inl e \<Rightarrow> Inl e
      | Inr c \<Rightarrow>
          (case py_getitem metas (int idx) of
             Inl e \<Rightarrow> Inl e
           | Inr m \<Rightarrow>
               (case collect_bm25 documents metas scores idxs of
                  Inl e \<Rightarrow> Inl e
                | Inr rs \<Rightarrow> Inr (\<lparr>content = c, metadata = m, score = scores ! idx\<rparr> # rs))))"

definition argsort :: "real list \<Rightarrow> nat list" where
  "argsort scores = sort_key (\<lambda>i. scores ! i) [0 ..< length scores]"

definition bm25_search ::
    "string \<Rightarrow> (string list \<Rightarrow> real list) \<Rightarrow> string list \<Rightarrow> metadata list \<Rightarrow> int \<Rightarrow> py_error + result list" where
  "bm25_search query bm25_index documents metas k =
     (let query_tokens = py_split (lower query);
          scores = bm25_index query_tokens;
          top_indices = py_slice_to (rev (argsort scores)) k
      in collect_bm25 documents metas scores top_indices)"

definition retrieve_text ::
    "'e retriever \<Rightarrow> string \<Rightarrow> (string \<times> int \<times> string) list \<Rightarrow> int \<Rightarrow> bool \<Rightarrow> py_error + result list" where
  "retrieve_text R query section_filter k use_hybrid =
     (let query_embedding = encode R query;
          hits = text_index R query_embedding (k * 2)
      in case collect_text (text_data_chunks R) (text_data_metadata R) hits of
           Inl e \<Rightarrow> Inl e
         | Inr results \<Rightarrow>
             (case (if use_hybrid then text_data_bm25 R else None) of
                None \<Rightarrow> Inr (py_slice_to results k)
              | Some None \<Rightarrow> Inl AttributeError
              | Some (Some bm25_index) \<Rightarrow>
                  (case bm25_search query bm25_index (text_data_chunks R) (text_data_metadata R) k of
                     Inl e \<Rightarrow> Inl e
                   | Inr bm25_results \<Rightarrow>
                       Inr (py_slice_to (merge_results results bm25_results default_alpha) k))))"

definition retrieve_tables ::
    "'e retriever \<Rightarrow> string \<Rightarrow> (string \<times> int \<times> string) list \<Rightarrow> int \<Rightarrow> bool \<Rightarrow> py_error + result list" where
  "retrieve_tables R query section_filter k use_hybrid =
     (case table_data_sentences R of
        None \<Rightarrow> retrieve_text R query section_filter k use_hybrid
      | Some sentences \<Rightarrow>
          if sentences = [] then retrieve_text R query section_filter k use_hybrid
          else
            let query_embedding = encode R query;
                hits = table_index R query_embedding (k * 2)
            in case collect_tables sentences (table_data_metadata R) hits of
                 Inl e \<Rightarrow> Inl e
               | Inr results \<Rightarrow>
                   (case (if use_hybrid then table_data_bm25 R else None) of
                      Some (Some bm25_index) \<Rightarrow>
                        (case bm25_search query bm25_index sentences (table_data_metadata R) k of
                           Inl e \<Rightarrow> Inl e
                         | Inr bm25_results \<Rightarrow>
                             Inr (py_slice_to (merge_results results bm25_results default_alpha) k))
                    | _ \<Rightarrow> Inr (py_slice_to results k)))"

definition retrieve ::
    "'e retriever \<Rightarrow> string \<Rightarrow> route_info \<Rightarrow> int \<Rightarrow> int \<Rightarrow> bool \<Rightarrow> py_error + retrieval" where
  "retrieve R query route_info top_k_sections top_k_content use_hybrid =
     (case retrieve_sections R query top_k_sections of
        Inl e \<Rightarrow> Inl e
      | Inr secs \<Rightarrow>
          let section_identifiers =
                map (\<lambda>s. (ticker (abstract_metadata s), fiscal_year (abstract_metadata s),
                           section_title (abstract_metadata s))) secs
          in case (if is_table_centric route_info
                   then retrieve_tables R query section_identifiers top_k_content use_hybrid
                   else retrieve_text R query section_identifiers top_k_content use_hybrid) of
               Inl e \<Rightarrow> Inl e
             | Inr found \<Rightarrow> Inr \<lparr>sections = secs, retrieved_content = found\<rparr>)"

section \<open>Auxiliary definitions\<close>

text \<open>
  The definitions of this section are not part of the program. They fix the example data used
  in closed statements and name the quantities that the statements compare.
\<close>

definition example_metadata :: metadata where
  "example_metadata = \<lparr>ticker = ''ACME'', fiscal_year = 2023, content_type = ''text'', section_title = ''Item 7''\<rparr>"

definition table_piece :: "string \<Rightarrow> result" where
  "table_piece c = \<lparr>content = c,
     metadata = \<lparr>ticker = ''ACME'', fiscal_year = 2023, content_type = ''table'', section_title = ''Item 8''\<rparr>,
     score = 1\<rparr>"

definition example_retriever :: "string list \<Rightarrow> (real \<times> int) list \<Rightarrow> string list option \<Rightarrow> (real \<times> int) list \<Rightarrow> string retriever" where
  "example_retriever chunks text_hits sentences table_hits =
     \<lparr>section_index = (\<lambda>e k. take (nat k) [(1, 0)]),
      text_index = (\<lambda>e k. take (nat k) text_hits),
      table_index = (\<lambda>e k. take (nat k) table_hits),
      section_data_abstracts = [''Item 7. Management discussion''],
      section_data_metadata = [example_metadata],
      text_data_chunks = chunks,
      text_data_metadata = map (\<lambda>c. example_metadata) chunks,
      text_data_bm25 = None,
      table_data_sentences = sentences,
      table_data_metadata = (case sentences of None \<Rightarrow> [] | Some ss \<Rightarrow> map (\<lambda>c. example_metadata\<lparr>content_type := ''table''\<rparr>) ss),
      table_data_bm25 = None,
      encode = (\<lambda>q. q)\<rparr>"

definition table_route :: route_info where
  "table_route = \<lparr>query_type = table_lookup, is_table_centric = True, requires_math = False,
                   confidence = 0.8\<rparr>"

text \<open>
  A keyword occurs in a query regardless of case when some segment of the query has the length
  of the keyword and agrees with it letter by letter, where an upper-case ASCII letter agrees
  with its lower-case form.
\<close>

definition same_letter :: "char \<Rightarrow> char \<Rightarrow> bool" where
  "same_letter c d =
     (c = d \<or> (c, d) \<in> set (zip ''ABCDEFGHIJKLMNOPQRSTUVWXYZ'' ''abcdefghijklmnopqrstuvwxyz'')
            \<or> (d, c) \<in> set (zip ''ABCDEFGHIJKLMNOPQRSTUVWXYZ'' ''abcdefghijklmnopqrstuvwxyz''))"

definition occurs_ignoring_case :: "string \<Rightarrow> string \<Rightarrow> bool" where
  "occurs_ignoring_case kw q = (\<exists>ps w ss. q = ps @ w @ ss \<and> list_all2 same_letter w kw)"

text \<open>
  The conditions under which text retrieval cannot fail: every position that the dense search
  returns is a valid index of the text corpus, and the lexical index, when the data holds one,
  is an index and scores no more documents than the corpus has.
\<close>

definition positions_in_range :: "(real \<times> int) list \<Rightarrow> nat \<Rightarrow> bool" where
  "positions_in_range hits n = list_all (\<lambda>h. - int n \<le> snd h \<and> snd h < int n) hits"

definition lexical_index_fits :: "'e retriever \<Rightarrow> string \<Rightarrow> bool" where
  "lexical_index_fits R q =
     (case text_data_bm25 R of
        None \<Rightarrow> True
      | Some None \<Rightarrow> False
      | Some (Some b) \<Rightarrow> length (b (py_split (lower q))) \<le> length (text_data_chunks R))"

text \<open>
  The keyword set as the specification lists it, and the predicate it describes.
\<close>

definition spec_math_keywords :: "string list" where
  "spec_math_keywords =
     [''calculate'', ''compute'', ''difference'', ''ratio'', ''percentage'',
      ''change'', ''growth'', ''increase'', ''decrease'']"

definition spec_requires_math :: "string \<Rightarrow> bool" where
  "spec_requires_math query = list_ex (\<lambda>kw. py_in kw (lower query)) spec_math_keywords"

text \<open>
  The dictionary built by the two loops of \<open>_merge_results\<close>, the invariant that every entry is
  stored under its own key, and the entry a lexical hit is added to.
\<close>

definition merged_dict :: "real \<Rightarrow> result list \<Rightarrow> result list \<Rightarrow> (string \<times> result) list" where
  "merged_dict \<alpha> ds bs = merge_bm25 \<alpha> bs (merge_dense \<alpha> ds [])"

definition keyed :: "(string \<times> result) list \<Rightarrow> bool" where
  "keyed M = list_all (\<lambda>p. key (snd p) = fst p) M"

definition base_entry :: "result option \<Rightarrow> result \<Rightarrow> result" where
  "base_entry old b0 = (case old of Some e \<Rightarrow> e | None \<Rightarrow> b0\<lparr>score := 0\<rparr>)"

text \<open>
  The score the program gives a key: the contribution of the last dense occurrence plus the sum
  of the contributions of all lexical occurrences.
\<close>

definition weighted_total :: "real \<Rightarrow> result list \<Rightarrow> result list \<Rightarrow> string \<Rightarrow> real" where
  "weighted_total \<alpha> ds bs k =
     (case List.find (\<lambda>d. key d = k) (rev ds) of Some d \<Rightarrow> \<alpha> * score d | None \<Rightarrow> 0)
     + (\<Sum>b\<leftarrow>filter (\<lambda>b. key b = k) bs. (1 - \<alpha>) * score b)"

definition rrf_total :: "hybrid_searcher \<Rightarrow> 'i hit list \<Rightarrow> 'i hit list \<Rightarrow> 'i + string \<Rightarrow> real" where
  "rrf_total S ds bs k =
     (case List.find (\<lambda>p. doc_id (snd p) = k) (rev (List.enumerate 0 ds)) of
        Some p \<Rightarrow> dense_weight S / (real (fst p) + 1) | None \<Rightarrow> 0)
     + (\<Sum>p\<leftarrow>filter (\<lambda>p. doc_id (snd p) = k) (List.enumerate 0 bs). bm25_weight S / (real (fst p) + 1))"

text \<open>
  The score the specification describes: the sum of the contributions of all occurrences.
\<close>

definition spec_weighted_total :: "real \<Rightarrow> result list \<Rightarrow> result list \<Rightarrow> string \<Rightarrow> real" where
  "spec_weighted_total \<alpha> ds bs k =
     (\<Sum>d\<leftarrow>filter (\<lambda>d. key d = k) ds. \<alpha> * score d)
     + (\<Sum>b\<leftarrow>filter (\<lambda>b. key b = k) bs. (1 - \<alpha>) * score b)"

definition spec_rrf_total :: "hybrid_searcher \<Rightarrow> 'i hit list \<Rightarrow> 'i hit list \<Rightarrow> 'i + string \<Rightarrow> real" where
  "spec_rrf_total S ds bs k =
     (\<Sum>p\<leftarrow>filter (\<lambda>p. doc_id (snd p) = k) (List.enumerate 0 ds). dense_weight S / (real (fst p) + 1))
     + (\<Sum>p\<leftarrow>filter (\<lambda>p. doc_id (snd p) = k) (List.enumerate 0 bs). bm25_weight S / (real (fst p) + 1))"

section \<open>Evaluation of concrete inputs\<close>

lemmas eval_defs = extract_numbers_text_def match_number_def match_unsigned_def match_point_def
  match_unit_def is_digit_def py_float_def digits_val_def digit_val_def apply_multiplier_def
  lower_def lower_char_def to_double_def round_pos_def round_half_even_def floor_log2_def
  pow2_def bit_length.simps Let_def

lemmas retrieval_defs = retrieve_def retrieve_sections_def retrieve_tables_def retrieve_text_def
  example_retriever_def table_route_def py_getitem_def py_slice_to_def Let_def
  bm25_search_def argsort_def py_split_def is_space_def lower_def lower_char_def

section \<open>Lemmas\<close>

subsection \<open>Strings and lists\<close>

lemma py_in_iff: "py_in kw s \<longleftrightarrow> (\<exists>ps ss. s = ps @ kw @ ss)"
proof -
  have "py_in kw s \<longleftrightarrow> sublist kw s"
    by (induction s) (simp_all add: sublist_Cons_right)
  then show ?thesis by (simp add: sublist_def)
qed

lemma sum_ones_length: "sum_list (map (\<lambda>x. Suc 0) xs) = length xs"
  by (induction xs) simp_all

lemma distinct_table_keywords: "distinct table_keywords"
  by (simp add: table_keywords_def)

lemma card_matching: "distinct ks \<Longrightarrow> card {kw \<in> set ks. P kw} = length (filter P ks)"
  by (metis distinct_card distinct_filter set_filter)

lemma letter_table:
  assumes "distinct U" and "length U = length L" and "d \<notin> set U"
  shows "(c = d \<or> (c, d) \<in> set (zip U L) \<or> (d, c) \<in> set (zip U L))
         \<longleftrightarrow> (case map_of (zip U L) c of Some l \<Rightarrow> l | None \<Rightarrow> c) = d"
proof -
  have dist: "distinct (map fst (zip U L))" using assms(1,2) by simp
  have no_d: "(d, c) \<notin> set (zip U L)"
    using assms(3) by (meson set_zip_leftD)
  show ?thesis
  proof (cases "map_of (zip U L) c")
    case None
    then have "(c, d) \<notin> set (zip U L)"
      using dist by (metis map_of_eq_Some_iff option.distinct(1))
    with None no_d show ?thesis by simp
  next
    case (Some l)
    then have "(c, l) \<in> set (zip U L)" by (rule map_of_SomeD)
    then have "c \<in> set U" by (rule set_zip_leftD)
    with assms(3) have "c \<noteq> d" by auto
    moreover have "(c, d) \<in> set (zip U L) \<longleftrightarrow> l = d"
      using Some dist by (metis map_of_eq_Some_iff option.inject)
    ultimately show ?thesis using Some no_d by simp
  qed
qed

lemma same_letter_lower:
  assumes "d \<notin> set ''ABCDEFGHIJKLMNOPQRSTUVWXYZ''"
  shows "same_letter c d \<longleftrightarrow> lower_char c = d"
  unfolding same_letter_def lower_char_def
  by (rule letter_table) (use assms in simp_all)

lemma same_letters_lower:
  assumes "\<forall>d \<in> set kw. d \<notin> set ''ABCDEFGHIJKLMNOPQRSTUVWXYZ''"
  shows "list_all2 same_letter w kw \<longleftrightarrow> lower w = kw"
  using assms
proof (induction kw arbitrary: w)
  case Nil
  then show ?case by (simp add: lower_def)
next
  case (Cons d kw)
  then show ?case
    by (cases w) (simp_all add: lower_def same_letter_lower)
qed

lemma occurs_ignoring_case_lower:
  assumes "\<forall>d \<in> set kw. d \<notin> set ''ABCDEFGHIJKLMNOPQRSTUVWXYZ''"
  shows "occurs_ignoring_case kw q \<longleftrightarrow> py_in kw (lower q)"
proof
  assume "occurs_ignoring_case kw q"
  then obtain ps w ss where "q = ps @ w @ ss" and "list_all2 same_letter w kw"
    by (auto simp: occurs_ignoring_case_def)
  then have "lower q = lower ps @ kw @ lower ss"
    using same_letters_lower [OF assms, of w] by (simp add: lower_def)
  then show "py_in kw (lower q)" unfolding py_in_iff by blast
next
  assume "py_in kw (lower q)"
  then obtain ps ss where "map lower_char q = ps @ kw @ ss"
    unfolding py_in_iff lower_def by blast
  then obtain us vs where q: "q = us @ vs" and "ps = map lower_char us"
    and "kw @ ss = map lower_char vs"
    by (auto simp: map_eq_append_conv)
  then obtain w ws where vs: "vs = w @ ws" and "kw = map lower_char w"
    by (metis append_eq_map_conv)
  then have "list_all2 same_letter w kw"
    using same_letters_lower [OF assms, of w] by (simp add: lower_def)
  with q vs show "occurs_ignoring_case kw q"
    unfolding occurs_ignoring_case_def by blast
qed

lemma table_keywords_lower_case:
  "\<forall>kw \<in> set table_keywords. \<forall>d \<in> set kw. d \<notin> set ''ABCDEFGHIJKLMNOPQRSTUVWXYZ''"
  by (simp add: table_keywords_def)

lemma matching_keywords:
  "{kw \<in> set table_keywords. occurs_ignoring_case kw q}
     = {kw \<in> set table_keywords. py_in kw (lower q)}"
proof -
  have "occurs_ignoring_case kw q \<longleftrightarrow> py_in kw (lower q)" if "kw \<in> set table_keywords" for kw
    using that table_keywords_lower_case by (intro occurs_ignoring_case_lower) blast
  then show ?thesis by blast
qed

lemma matching_count:
  "card {kw \<in> set table_keywords. occurs_ignoring_case kw q}
     = length (filter (\<lambda>kw. py_in kw (lower q)) table_keywords)"
  unfolding matching_keywords by (rule card_matching [OF distinct_table_keywords])

lemma slice_subset:
  assumes "0 \<le> k1 \<or> k2 < 0" and "k1 \<le> k2"
  shows "set (py_slice_to xs k1) \<subseteq> set (py_slice_to xs k2)"
proof -
  from assms have "(0 \<le> k1 \<and> 0 \<le> k2 \<and> nat k1 \<le> nat k2) \<or>
      (k1 < 0 \<and> k2 < 0 \<and> length xs - nat (- k1) \<le> length xs - nat (- k2))"
    by auto
  then show ?thesis
    by (auto simp: py_slice_to_def dest: set_take_subset_set_take [THEN subsetD, rotated])
qed

lemma py_slice_to_subset: "set (py_slice_to xs k) \<subseteq> set xs"
  by (auto simp: py_slice_to_def dest: in_set_takeD)

lemma py_slice_to_nonempty: "xs \<noteq> [] \<Longrightarrow> 0 < k \<Longrightarrow> py_slice_to xs k \<noteq> []"
  by (simp add: py_slice_to_def)

lemma py_getitem_mem: "py_getitem xs i = Inr x \<Longrightarrow> x \<in> set xs"
  by (auto simp: py_getitem_def Let_def split: if_splits)

lemma find_snoc:
  "List.find P (xs @ [x]) = (case List.find P xs of Some y \<Rightarrow> Some y | None \<Rightarrow> if P x then Some x else None)"
  by (induction xs) simp_all




lemma find_mem: "List.find P xs = Some x \<Longrightarrow> x \<in> set xs"
  by (induction xs) (auto split: if_splits)

lemma set_update_cases:
  "p \<in> set (AList.update k v M) \<Longrightarrow> p = (k, v) \<or> p \<in> set M"
  by (induction M) (auto split: if_splits)

lemma distinct_map_sort_key: "distinct (map g xs) \<Longrightarrow> distinct (map g (sort_key f xs))"
  by (simp add: distinct_map)

lemma map_of_sort_key:
  assumes "distinct (map fst xs)"
  shows "map_of (sort_key f xs) = map_of xs"
proof -
  have "distinct (map fst (sort_key f xs))" using assms by (rule distinct_map_sort_key)
  with assms show ?thesis
    using map_of_inject_set [of "sort_key f xs" xs] by simp
qed

lemma foldl_append_concat: "foldl (\<lambda>acc x. acc @ f x) acc xs = acc @ concat (map f xs)"
  by (induction xs arbitrary: acc) simp_all

subsection \<open>The verifier\<close>

lemma extend_step:
  "(\<lambda>all_numbers item. case item of
        PDict d \<Rightarrow> all_numbers @ extract_numbers render (dict_get d ''content'' (PStr []))
      | _ \<Rightarrow> all_numbers @ extract_numbers render (PStr (py_str render item)))
   = (\<lambda>all_numbers item. all_numbers @ (case item of
        PDict d \<Rightarrow> extract_numbers render (dict_get d ''content'' (PStr []))
      | _ \<Rightarrow> extract_numbers render (PStr (py_str render item))))"
  by (intro ext) (simp split: pyval.splits)

lemma table_evidence_numbers_eq:
  "table_evidence_numbers evidence =
     concat (map (\<lambda>ev. extract_numbers_text (content ev))
                 (filter (\<lambda>ev. content_type (metadata ev) = ''table'') evidence))"
  by (induction evidence) simp_all

lemma verify_presence_iff:
  "verify_presence tol ans evs \<longleftrightarrow>
     (\<forall>a \<in> set ans. \<exists>e \<in> set evs.
        if e = Fin 0 then fl_less (fl_abs a) tol
        else fl_less (fl_abs (fl_div (fl_sub a e) e)) tol)"
  by (simp add: verify_presence_def list_all_iff list_ex_iff numbers_match_def)

subsection \<open>Weighted score fusion\<close>

lemma merge_dense_lookup:
  "map_of (merge_dense \<alpha> ds M) k =
     (case List.find (\<lambda>d. key d = k) (rev ds) of
        Some d \<Rightarrow> Some (d\<lparr>score := \<alpha> * score d\<rparr>)
      | None \<Rightarrow> map_of M k)"
  by (induction ds arbitrary: M) (auto simp: find_snoc update_conv' split: option.splits)

lemma merge_bm25_lookup:
  "map_of (merge_bm25 \<alpha> bs M) k =
     (case filter (\<lambda>b. key b = k) bs of
        [] \<Rightarrow> map_of M k
      | b0 # rest \<Rightarrow>
          Some ((base_entry (map_of M k) b0)
                 \<lparr>score := score (base_entry (map_of M k) b0)
                            + (\<Sum>b\<leftarrow>b0 # rest. (1 - \<alpha>) * score b)\<rparr>))"
proof (induction bs arbitrary: M)
  case Nil
  then show ?case by simp
next
  case (Cons r rs)
  show ?case
  proof (cases "key r = k")
    case False
    then show ?thesis
      by (simp add: Cons.IH update_conv' split: option.splits list.splits)
  next
    case True
    then show ?thesis
      by (cases "filter (\<lambda>b. key b = k) rs"; cases "map_of M k")
         (simp_all add: Cons.IH update_conv' base_entry_def add.assoc)
  qed
qed

lemma keys_merge_dense:
  "fst ` set (merge_dense \<alpha> ds M) = fst ` set M \<union> key ` set ds"
  by (induction ds arbitrary: M) (auto simp: dom_update)

lemma keys_merge_bm25:
  "fst ` set (merge_bm25 \<alpha> bs M) = fst ` set M \<union> key ` set bs"
proof (induction bs arbitrary: M)
  case Nil
  then show ?case by simp
next
  case (Cons r rs)
  show ?case
    by (cases "map_of M (key r)") (auto simp: Cons.IH dom_update)
qed

lemma distinct_merge_dense:
  "distinct (map fst M) \<Longrightarrow> distinct (map fst (merge_dense \<alpha> ds M))"
  by (induction ds arbitrary: M) (simp_all add: distinct_update)

lemma distinct_merge_bm25:
  "distinct (map fst M) \<Longrightarrow> distinct (map fst (merge_bm25 \<alpha> bs M))"
proof (induction bs arbitrary: M)
  case Nil
  then show ?case by simp
next
  case (Cons r rs)
  then show ?case
    by (cases "map_of M (key r)") (simp_all add: distinct_update)
qed

lemma keyed_update: "keyed M \<Longrightarrow> key v = k \<Longrightarrow> keyed (AList.update k v M)"
  unfolding keyed_def list_all_iff by (auto dest: set_update_cases)

lemma keyed_lookup: "keyed M \<Longrightarrow> map_of M k = Some e \<Longrightarrow> key e = k"
  unfolding keyed_def list_all_iff by (fastforce dest: map_of_SomeD)

lemma keyed_merge_dense: "keyed M \<Longrightarrow> keyed (merge_dense \<alpha> ds M)"
  by (induction ds arbitrary: M) (simp_all add: keyed_update key_def)

lemma keyed_merge_bm25: "keyed M \<Longrightarrow> keyed (merge_bm25 \<alpha> bs M)"
proof (induction bs arbitrary: M)
  case Nil
  then show ?case by simp
next
  case (Cons r rs)
  show ?case
  proof (cases "map_of M (key r)")
    case None
    then show ?thesis using Cons by (simp add: keyed_update key_def)
  next
    case (Some e)
    then have "key (e\<lparr>score := score e + (1 - \<alpha>) * score r\<rparr>) = key r"
      using keyed_lookup [OF Cons.prems Some] by (simp add: key_def)
    then show ?thesis using Cons Some by (simp add: keyed_update)
  qed
qed

lemma merged_dict_distinct: "distinct (map fst (merged_dict \<alpha> ds bs))"
  by (simp add: merged_dict_def distinct_merge_bm25 distinct_merge_dense)

lemma merged_dict_keyed: "keyed (merged_dict \<alpha> ds bs)"
proof -
  have "keyed []" by (simp add: keyed_def)
  then show ?thesis
    by (simp add: merged_dict_def keyed_merge_bm25 keyed_merge_dense)
qed

lemma merged_dict_keys: "fst ` set (merged_dict \<alpha> ds bs) = key ` (set ds \<union> set bs)"
  by (auto simp: merged_dict_def keys_merge_bm25 keys_merge_dense)

lemma merge_results_set: "set (merge_results ds bs \<alpha>) = snd ` set (merged_dict \<alpha> ds bs)"
  by (simp add: merge_results_def merged_dict_def)

lemma merged_dict_map_key: "map key (map snd (merged_dict \<alpha> ds bs)) = map fst (merged_dict \<alpha> ds bs)"
  using merged_dict_keyed [of \<alpha> ds bs] by (simp add: keyed_def list_all_iff)

lemma merge_results_member:
  "r \<in> set (merge_results ds bs \<alpha>) \<longleftrightarrow> map_of (merged_dict \<alpha> ds bs) (key r) = Some r"
proof
  assume "r \<in> set (merge_results ds bs \<alpha>)"
  then obtain k where in_dict: "(k, r) \<in> set (merged_dict \<alpha> ds bs)"
    by (auto simp: merge_results_set)
  then have "map_of (merged_dict \<alpha> ds bs) k = Some r"
    by (simp add: merged_dict_distinct)
  moreover from this have "key r = k"
    by (rule keyed_lookup [OF merged_dict_keyed])
  ultimately show "map_of (merged_dict \<alpha> ds bs) (key r) = Some r" by simp
next
  assume "map_of (merged_dict \<alpha> ds bs) (key r) = Some r"
  then have "(key r, r) \<in> set (merged_dict \<alpha> ds bs)" by (rule map_of_SomeD)
  then show "r \<in> set (merge_results ds bs \<alpha>)"
    by (force simp: merge_results_set)
qed

lemma merge_results_distinct_keys: "distinct (map key (merge_results ds bs \<alpha>))"
proof -
  have d: "distinct (map key (map snd (merged_dict \<alpha> ds bs)))"
    by (simp only: merged_dict_map_key merged_dict_distinct)
  then have "distinct (map snd (merged_dict \<alpha> ds bs))"
    and "inj_on key (set (map snd (merged_dict \<alpha> ds bs)))"
    by (simp_all only: distinct_map)
  then show ?thesis
    unfolding merge_results_def merged_dict_def [symmetric] Let_def
    by (simp only: distinct_map distinct_sort set_sort simp_thms)
qed


lemma merged_dict_lookup:
  "map_of (merged_dict \<alpha> ds bs) k =
     (case filter (\<lambda>b. key b = k) bs of
        [] \<Rightarrow> map_option (\<lambda>d. d\<lparr>score := \<alpha> * score d\<rparr>) (List.find (\<lambda>d. key d = k) (rev ds))
      | b0 # rest \<Rightarrow>
          Some ((base_entry (map_option (\<lambda>d. d\<lparr>score := \<alpha> * score d\<rparr>)
                               (List.find (\<lambda>d. key d = k) (rev ds))) b0)
                 \<lparr>score := score (base_entry (map_option (\<lambda>d. d\<lparr>score := \<alpha> * score d\<rparr>)
                               (List.find (\<lambda>d. key d = k) (rev ds))) b0)
                            + (\<Sum>b\<leftarrow>b0 # rest. (1 - \<alpha>) * score b)\<rparr>))"
proof -
  have "map_of (merge_dense \<alpha> ds []) k
      = map_option (\<lambda>d. d\<lparr>score := \<alpha> * score d\<rparr>) (List.find (\<lambda>d. key d = k) (rev ds))"
    by (simp add: merge_dense_lookup split: option.splits)
  then show ?thesis
    by (simp add: merged_dict_def merge_bm25_lookup split: list.splits)
qed

lemma merge_results_keys: "key ` set (merge_results ds bs \<alpha>) = key ` (set ds \<union> set bs)"
proof -
  have "key ` set (merge_results ds bs \<alpha>) = set (map key (map snd (merged_dict \<alpha> ds bs)))"
    by (simp add: merge_results_set image_image)
  then show ?thesis
    by (simp only: merged_dict_map_key set_map merged_dict_keys)
qed

lemma merge_results_nonempty: "ds \<noteq> [] \<Longrightarrow> merge_results ds bs \<alpha> \<noteq> []"
proof
  assume "ds \<noteq> []" and "merge_results ds bs \<alpha> = []"
  then have "key ` (set ds \<union> set bs) = {}"
    using merge_results_keys [of ds bs \<alpha>] by simp
  with \<open>ds \<noteq> []\<close> show False by simp
qed

lemma merge_results_source:
  assumes "r \<in> set (merge_results ds bs \<alpha>)"
  shows "\<exists>x \<in> set ds \<union> set bs. content r = content x \<and> metadata r = metadata x"
proof -
  let ?found = "List.find (\<lambda>d. key d = key r) (rev ds)"
  have found_mem: "d \<in> set ds" if "?found = Some d" for d
    using find_mem [OF that] by simp
  from assms have look: "map_of (merged_dict \<alpha> ds bs) (key r) = Some r"
    by (simp add: merge_results_member)
  show ?thesis
  proof (cases "filter (\<lambda>b. key b = key r) bs")
    case Nil
    with look obtain d where "?found = Some d" and "r = d\<lparr>score := \<alpha> * score d\<rparr>"
      by (auto simp: merged_dict_lookup)
    then show ?thesis using found_mem by auto
  next
    case (Cons b0 rest)
    then have "b0 \<in> set (filter (\<lambda>b. key b = key r) bs)" by simp
    then have b0: "b0 \<in> set bs" by simp
    show ?thesis
    proof (cases ?found)
      case None
      with look Cons have "content r = content b0 \<and> metadata r = metadata b0"
        by (auto simp: merged_dict_lookup base_entry_def)
      with b0 show ?thesis by auto
    next
      case (Some d)
      with look Cons have "content r = content d \<and> metadata r = metadata d"
        by (auto simp: merged_dict_lookup base_entry_def)
      with found_mem [OF Some] show ?thesis by auto
    qed
  qed
qed

lemma map_of_keyed_scores:
  "map_of (map (\<lambda>r. (key r, score r)) (merge_results ds bs \<alpha>)) k
     = map_option score (map_of (merged_dict \<alpha> ds bs) k)"
proof -
  let ?out = "merge_results ds bs \<alpha>"
  let ?A = "map (\<lambda>r. (key r, r)) ?out"
  have dA: "distinct (map fst ?A)"
    using merge_results_distinct_keys [of ds bs \<alpha>] by (simp add: comp_def)
  have "set ?A = set (merged_dict \<alpha> ds bs)"
  proof (intro set_eqI iffI)
    fix p assume "p \<in> set ?A"
    then obtain r where "r \<in> set ?out" and "p = (key r, r)" by auto
    then show "p \<in> set (merged_dict \<alpha> ds bs)"
      by (auto simp: merge_results_member dest: map_of_SomeD)
  next
    fix p assume p: "p \<in> set (merged_dict \<alpha> ds bs)"
    then have m: "map_of (merged_dict \<alpha> ds bs) (fst p) = Some (snd p)"
      by (simp add: merged_dict_distinct)
    then have k: "key (snd p) = fst p" by (rule keyed_lookup [OF merged_dict_keyed])
    with m have "snd p \<in> set ?out" by (simp add: merge_results_member)
    with k show "p \<in> set ?A" by force
  qed
  with dA have "map_of ?A = map_of (merged_dict \<alpha> ds bs)"
    using map_of_inject_set [of ?A "merged_dict \<alpha> ds bs"] by (simp add: merged_dict_distinct)
  moreover have "map_of (map (\<lambda>r. (key r, score r)) ?out) k = map_option score (map_of ?A k)"
    using map_of_map [of score ?A] by (simp add: comp_def)
  ultimately show ?thesis by simp
qed

lemma weighted_scores:
  "map_of (map (\<lambda>r. (key r, score r)) (merge_results ds bs \<alpha>)) k =
     (if k \<in> key ` (set ds \<union> set bs) then Some (weighted_total \<alpha> ds bs k) else None)"
proof (cases "k \<in> key ` (set ds \<union> set bs)")
  case False
  then have "k \<notin> fst ` set (merged_dict \<alpha> ds bs)" by (simp add: merged_dict_keys)
  then have "map_of (merged_dict \<alpha> ds bs) k = None" by (simp add: map_of_eq_None_iff)
  with False show ?thesis by (simp add: map_of_keyed_scores)
next
  case True
  show ?thesis
  proof (cases "filter (\<lambda>b. key b = k) bs")
    case Nil
    then have "k \<notin> key ` set bs" by (auto simp: filter_empty_conv)
    with True obtain d where "d \<in> set ds" "key d = k" by auto
    then have "List.find (\<lambda>d. key d = k) (rev ds) \<noteq> None"
      by (auto simp: find_None_iff)
    then show ?thesis using True Nil
      by (auto simp: map_of_keyed_scores merged_dict_lookup weighted_total_def)
  next
    case (Cons b0 rest)
    then show ?thesis using True
      by (cases "List.find (\<lambda>d. key d = k) (rev ds)")
         (simp_all add: map_of_keyed_scores merged_dict_lookup weighted_total_def base_entry_def)
  qed
qed


subsection \<open>Reciprocal rank fusion\<close>

lemma rrf_dense_lookup:
  "map_of (rrf_dense w n ds S) k =
     (case List.find (\<lambda>p. doc_id (snd p) = k) (rev (List.enumerate n ds)) of
        Some p \<Rightarrow> Some (w / (real (fst p) + 1))
      | None \<Rightarrow> map_of S k)"
  by (induction ds arbitrary: n S) (auto simp: find_snoc update_conv' split: option.splits)

lemma rrf_bm25_lookup:
  "map_of (rrf_bm25 w n bs S) k =
     (if filter (\<lambda>p. doc_id (snd p) = k) (List.enumerate n bs) = [] then map_of S k
      else Some ((case map_of S k of Some s \<Rightarrow> s | None \<Rightarrow> 0)
                 + (\<Sum>p\<leftarrow>filter (\<lambda>p. doc_id (snd p) = k) (List.enumerate n bs).
                      w / (real (fst p) + 1))))"
proof (induction bs arbitrary: n S)
  case Nil
  then show ?case by simp
next
  case (Cons r rs)
  show ?case
    by (cases "map_of S (doc_id r)") (auto simp: Cons.IH update_conv')
qed

lemma keys_rrf_dense: "fst ` set (rrf_dense w n ds S) = fst ` set S \<union> doc_id ` set ds"
  by (induction ds arbitrary: n S) (auto simp: dom_update)

lemma keys_rrf_bm25: "fst ` set (rrf_bm25 w n bs S) = fst ` set S \<union> doc_id ` set bs"
proof (induction bs arbitrary: n S)
  case Nil
  then show ?case by simp
next
  case (Cons r rs)
  show ?case
    by (cases "map_of S (doc_id r)") (auto simp: Cons.IH dom_update)
qed

lemma distinct_rrf_dense: "distinct (map fst S) \<Longrightarrow> distinct (map fst (rrf_dense w n ds S))"
  by (induction ds arbitrary: n S) (simp_all add: distinct_update)

lemma distinct_rrf_bm25: "distinct (map fst S) \<Longrightarrow> distinct (map fst (rrf_bm25 w n bs S))"
proof (induction bs arbitrary: n S)
  case Nil
  then show ?case by simp
next
  case (Cons r rs)
  then show ?case
    by (cases "map_of S (doc_id r)") (simp_all add: distinct_update)
qed

lemma doc_id_enumerate:
  "(filter (\<lambda>p. doc_id (snd p) = k) (List.enumerate n xs) = []) \<longleftrightarrow> k \<notin> doc_id ` set xs"
  by (induction xs arbitrary: n) auto

lemma rrf_scores:
  "map_of (fuse_sorted_ids S ds bs) k =
     (if k \<in> doc_id ` (set ds \<union> set bs) then Some (rrf_total S ds bs k) else None)"
proof -
  let ?D = "rrf_dense (dense_weight S) 0 ds []"
  let ?M = "rrf_bm25 (bm25_weight S) 0 bs ?D"
  have "distinct (map fst ?M)" by (simp add: distinct_rrf_bm25 distinct_rrf_dense)
  then have sorted_same: "map_of (fuse_sorted_ids S ds bs) = map_of ?M"
    by (simp add: fuse_sorted_ids_def map_of_sort_key)
  have dense: "map_of ?D k =
      (case List.find (\<lambda>p. doc_id (snd p) = k) (rev (List.enumerate 0 ds)) of
         Some p \<Rightarrow> Some (dense_weight S / (real (fst p) + 1)) | None \<Rightarrow> None)"
    by (simp add: rrf_dense_lookup split: option.splits)
  have dense_none: "List.find (\<lambda>p. doc_id (snd p) = k) (rev (List.enumerate 0 ds)) = None
      \<longleftrightarrow> k \<notin> doc_id ` set ds"
  proof -
    have "List.find (\<lambda>p. doc_id (snd p) = k) (rev (List.enumerate 0 ds)) = None
        \<longleftrightarrow> filter (\<lambda>p. doc_id (snd p) = k) (List.enumerate 0 ds) = []"
      by (fastforce simp: find_None_iff filter_empty_conv)
    then show ?thesis by (simp add: doc_id_enumerate)
  qed
  show ?thesis
  proof (cases "k \<in> doc_id ` set bs")
    case True
    then have "filter (\<lambda>p. doc_id (snd p) = k) (List.enumerate 0 bs) \<noteq> []"
      by (simp add: doc_id_enumerate)
    with True show ?thesis
      by (auto simp: sorted_same rrf_bm25_lookup dense rrf_total_def split: option.splits)
  next
    case False
    then have "filter (\<lambda>p. doc_id (snd p) = k) (List.enumerate 0 bs) = []"
      by (simp add: doc_id_enumerate)
    with False show ?thesis
      using dense_none
      by (auto simp: sorted_same rrf_bm25_lookup dense rrf_total_def split: option.splits)
  qed
qed

lemma fuse_sorted_ids_distinct: "distinct (map fst (fuse_sorted_ids S ds bs))"
  by (simp add: fuse_sorted_ids_def distinct_map_sort_key distinct_rrf_bm25 distinct_rrf_dense)

subsection \<open>Retrieval\<close>

lemma collect_text_props:
  "collect_text cs ms hits = Inr rs \<Longrightarrow>
     length rs = length hits \<and> list_all (\<lambda>r. content r \<in> set cs \<and> metadata r \<in> set ms) rs"
proof (induction hits arbitrary: rs)
  case Nil
  then show ?case by simp
next
  case (Cons h hits)
  obtain dis idx where h: "h = (dis, idx)" by (cases h)
  from Cons.prems obtain c m rs' where
    "py_getitem cs idx = Inr c" "py_getitem ms idx = Inr m"
    "collect_text cs ms hits = Inr rs'"
    "rs = \<lparr>content = c, metadata = m, score = 1 / (1 + dis)\<rparr> # rs'"
    by (auto simp: h split: sum.splits)
  then show ?case using Cons.IH [of rs'] by (simp add: py_getitem_mem)
qed

lemma collect_bm25_props:
  "collect_bm25 docs ms scores idxs = Inr rs \<Longrightarrow>
     list_all (\<lambda>r. content r \<in> set docs \<and> metadata r \<in> set ms) rs"
proof (induction idxs arbitrary: rs)
  case Nil
  then show ?case by simp
next
  case (Cons idx idxs)
  from Cons.prems obtain c m rs' where
    "py_getitem docs (int idx) = Inr c" "py_getitem ms (int idx) = Inr m"
    "collect_bm25 docs ms scores idxs = Inr rs'"
    "rs = \<lparr>content = c, metadata = m, score = scores ! idx\<rparr> # rs'"
    by (auto split: sum.splits)
  then show ?case using Cons.IH [of rs'] by (simp add: py_getitem_mem)
qed

lemma retrieve_text_sound:
  assumes ok: "retrieve_text R q sf k h = Inr out"
    and k: "0 < k"
    and hits: "text_index R (encode R q) (k * 2) \<noteq> []"
  shows "out \<noteq> [] \<and>
         (\<forall>r \<in> set out. content r \<in> set (text_data_chunks R) \<and> metadata r \<in> set (text_data_metadata R))"
proof -
  let ?cs = "text_data_chunks R" and ?ms = "text_data_metadata R"
  let ?P = "\<lambda>r. content r \<in> set ?cs \<and> metadata r \<in> set ?ms"
  from ok obtain results where
    coll: "collect_text ?cs ?ms (text_index R (encode R q) (k * 2)) = Inr results"
    by (auto simp: retrieve_text_def Let_def split: sum.splits)
  from collect_text_props [OF coll] hits
  have ne: "results \<noteq> []" and src: "\<forall>r \<in> set results. ?P r"
    by (auto simp: list_all_iff)
  consider (plain) "out = py_slice_to results k"
    | (hybrid) b bm where "bm25_search q b ?cs ?ms k = Inr bm"
        "out = py_slice_to (merge_results results bm default_alpha) k"
    using ok coll
    by (auto simp: retrieve_text_def Let_def split: sum.splits option.splits if_splits)
  then show ?thesis
  proof cases
    case plain
    then show ?thesis
      using ne src k py_slice_to_subset [of results k] by (auto simp: py_slice_to_nonempty)
  next
    case hybrid
    from hybrid(1) have bsrc: "\<forall>r \<in> set bm. ?P r"
      by (auto simp: bm25_search_def Let_def list_all_iff dest!: collect_bm25_props)
    have "?P r" if "r \<in> set (merge_results results bm default_alpha)" for r
    proof -
      from merge_results_source [OF that] obtain x where
        "x \<in> set results \<union> set bm" "content r = content x" "metadata r = metadata x"
        by blast
      then show ?thesis using src bsrc by auto
    qed
    moreover have "merge_results results bm default_alpha \<noteq> []"
      using ne by (rule merge_results_nonempty)
    ultimately show ?thesis
      using hybrid(2) k py_slice_to_subset [of "merge_results results bm default_alpha" k]
      by (auto simp: py_slice_to_nonempty)
  qed
qed

lemma py_getitem_ok:
  "- int (length xs) \<le> i \<Longrightarrow> i < int (length xs) \<Longrightarrow> \<exists>x. py_getitem xs i = Inr x"
  by (simp add: py_getitem_def Let_def)

lemma collect_text_total:
  "positions_in_range hits (length cs) \<Longrightarrow> length ms = length cs \<Longrightarrow>
     \<exists>rs. collect_text cs ms hits = Inr rs"
proof (induction hits)
  case Nil
  then show ?case by simp
next
  case (Cons h hits)
  obtain dis idx where h: "h = (dis, idx)" by (cases h)
  from Cons.prems h have r: "- int (length cs) \<le> idx" "idx < int (length cs)"
    by (simp_all add: positions_in_range_def)
  from py_getitem_ok [OF r] obtain c where c: "py_getitem cs idx = Inr c" by blast
  from py_getitem_ok [of ms idx] r Cons.prems(2) obtain m where m: "py_getitem ms idx = Inr m"
    by auto
  from Cons obtain rs where "collect_text cs ms hits = Inr rs"
    by (auto simp: positions_in_range_def)
  with c m h show ?case by simp
qed

lemma collect_sections_total:
  "positions_in_range hits (length cs) \<Longrightarrow> length ms = length cs \<Longrightarrow>
     \<exists>rs. collect_sections cs ms hits = Inr rs"
proof (induction hits)
  case Nil
  then show ?case by simp
next
  case (Cons h hits)
  obtain dis idx where h: "h = (dis, idx)" by (cases h)
  from Cons.prems h have r: "- int (length cs) \<le> idx" "idx < int (length cs)"
    by (simp_all add: positions_in_range_def)
  from py_getitem_ok [OF r] obtain c where c: "py_getitem cs idx = Inr c" by blast
  from py_getitem_ok [of ms idx] r Cons.prems(2) obtain m where m: "py_getitem ms idx = Inr m"
    by auto
  from Cons obtain rs where "collect_sections cs ms hits = Inr rs"
    by (auto simp: positions_in_range_def)
  with c m h show ?case by simp
qed

lemma collect_bm25_total:
  "list_all (\<lambda>i. i < length docs) idxs \<Longrightarrow> length ms = length docs \<Longrightarrow>
     \<exists>rs. collect_bm25 docs ms scores idxs = Inr rs"
proof (induction idxs)
  case Nil
  then show ?case by simp
next
  case (Cons idx idxs)
  then have r: "- int (length docs) \<le> int idx" "int idx < int (length docs)" by simp_all
  from py_getitem_ok [OF r] obtain c where c: "py_getitem docs (int idx) = Inr c" by blast
  from py_getitem_ok [of ms "int idx"] r Cons.prems(2)
  obtain m where m: "py_getitem ms (int idx) = Inr m" by auto
  from Cons obtain rs where "collect_bm25 docs ms scores idxs = Inr rs" by auto
  with c m show ?case by simp
qed

lemma bm25_search_total:
  assumes "length (b (py_split (lower q))) \<le> length docs" and "length ms = length docs"
  shows "\<exists>rs. bm25_search q b docs ms k = Inr rs"
proof -
  let ?scores = "b (py_split (lower q))"
  have "set (py_slice_to (rev (argsort ?scores)) k) \<subseteq> set (rev (argsort ?scores))"
    by (rule py_slice_to_subset)
  also have "\<dots> = {0 ..< length ?scores}" by (simp add: argsort_def)
  finally have "list_all (\<lambda>i. i < length docs) (py_slice_to (rev (argsort ?scores)) k)"
    using assms(1) by (auto simp: list_all_iff)
  from collect_bm25_total [OF this assms(2)] show ?thesis
    by (simp add: bm25_search_def Let_def)
qed

lemma retrieve_text_total:
  assumes "positions_in_range (text_index R (encode R q) (k * 2)) (length (text_data_chunks R))"
    and "length (text_data_metadata R) = length (text_data_chunks R)"
    and "h \<longrightarrow> lexical_index_fits R q"
  shows "\<exists>out. retrieve_text R q sf k h = Inr out"
proof -
  from collect_text_total [OF assms(1,2)] obtain results where
    coll: "collect_text (text_data_chunks R) (text_data_metadata R)
             (text_index R (encode R q) (k * 2)) = Inr results"
    by blast
  show ?thesis
  proof (cases "if h then text_data_bm25 R else None")
    case None
    with coll show ?thesis by (simp add: retrieve_text_def Let_def)
  next
    case (Some v)
    then have h: h and v: "text_data_bm25 R = Some v" by (simp_all split: if_splits)
    with assms(3) obtain b where b: "v = Some b"
      and fits: "length (b (py_split (lower q))) \<le> length (text_data_chunks R)"
      by (cases v) (simp_all add: lexical_index_fits_def)
    from bm25_search_total [of b q "text_data_chunks R" "text_data_metadata R" k] fits assms(2)
    obtain bm where
      "bm25_search q b (text_data_chunks R) (text_data_metadata R) k = Inr bm" by blast
    with coll h v b show ?thesis by (simp add: retrieve_text_def Let_def)
  qed
qed

section \<open>The claims\<close>

subsection \<open>C1: weighted score fusion\<close>




subsection \<open>C2: table-centric retrieval over an empty table corpus\<close>

text \<open>
  Claim C2, as amended. When the table-sentence corpus is absent or empty, table retrieval
  returns exactly what text retrieval returns for the same arguments, and so \<open>retrieve\<close> gives
  a table-centric query the result it gives a narrative one. Whenever text retrieval returns a
  list for a cutoff \<open>k > 0\<close> and the dense text search returned at least one position, that list
  is not empty and each of its items carries a chunk and a metadata entry of the text corpus.
  Text retrieval does return such a list, and raises nothing, when \<open>k > 0\<close>, the dense search
  returns at least one position, every returned position is a valid index of the text corpus,
  the metadata array is as long as the corpus and, in hybrid mode, the lexical index fits the
  corpus. When in addition every section position is a valid index of the section data,
  \<open>retrieve\<close> returns a result whose content list is not empty and comes from the text corpus.
\<close>

theorem empty_table_fallback:
  "(table_data_sentences R = None \<or> table_data_sentences R = Some [] \<longrightarrow>
      retrieve_tables R q sf k h = retrieve_text R q sf k h \<and>
      (is_table_centric ri \<longrightarrow>
         retrieve R q ri ks k h = retrieve R q (ri\<lparr>is_table_centric := False\<rparr>) ks k h)) \<and>
   (retrieve_text R q sf k h = Inr out \<and> 0 < k \<and> text_index R (encode R q) (k * 2) \<noteq> [] \<longrightarrow>
      out \<noteq> [] \<and>
      (\<forall>r \<in> set out. content r \<in> set (text_data_chunks R) \<and> metadata r \<in> set (text_data_metadata R))) \<and>
   (0 < k \<and> text_index R (encode R q) (k * 2) \<noteq> [] \<and>
    positions_in_range (text_index R (encode R q) (k * 2)) (length (text_data_chunks R)) \<and>
    length (text_data_metadata R) = length (text_data_chunks R) \<and>
    (h \<longrightarrow> lexical_index_fits R q) \<longrightarrow>
      (\<exists>found. retrieve_text R q sf k h = Inr found \<and> found \<noteq> [] \<and>
         (\<forall>r \<in> set found. content r \<in> set (text_data_chunks R) \<and>
                            metadata r \<in> set (text_data_metadata R)))) \<and>
   ((table_data_sentences R = None \<or> table_data_sentences R = Some []) \<and> is_table_centric ri \<and>
    0 < k \<and> text_index R (encode R q) (k * 2) \<noteq> [] \<and>
    positions_in_range (text_index R (encode R q) (k * 2)) (length (text_data_chunks R)) \<and>
    length (text_data_metadata R) = length (text_data_chunks R) \<and>
    (h \<longrightarrow> lexical_index_fits R q) \<and>
    positions_in_range (section_index R (encode R q) ks) (length (section_data_abstracts R)) \<and>
    length (section_data_metadata R) = length (section_data_abstracts R) \<longrightarrow>
      (\<exists>secs found. retrieve R q ri ks k h = Inr \<lparr>sections = secs, retrieved_content = found\<rparr> \<and>
         found \<noteq> [] \<and>
         (\<forall>r \<in> set found. content r \<in> set (text_data_chunks R) \<and>
                            metadata r \<in> set (text_data_metadata R))))"
proof -
  have fallback: "retrieve_tables R q sf' k h = retrieve_text R q sf' k h"
    if "table_data_sentences R = None \<or> table_data_sentences R = Some []" for sf'
    using that by (auto simp: retrieve_tables_def)
  have sound: "found \<noteq> [] \<and>
      (\<forall>r \<in> set found. content r \<in> set (text_data_chunks R) \<and> metadata r \<in> set (text_data_metadata R))"
    if "retrieve_text R q sf' k h = Inr found" "0 < k" "text_index R (encode R q) (k * 2) \<noteq> []"
    for sf' found
    using retrieve_text_sound [OF that] .
  have total: "\<exists>found. retrieve_text R q sf' k h = Inr found \<and> found \<noteq> [] \<and>
         (\<forall>r \<in> set found. content r \<in> set (text_data_chunks R) \<and>
                            metadata r \<in> set (text_data_metadata R))"
    if "0 < k" "text_index R (encode R q) (k * 2) \<noteq> []"
      "positions_in_range (text_index R (encode R q) (k * 2)) (length (text_data_chunks R))"
      "length (text_data_metadata R) = length (text_data_chunks R)"
      "h \<longrightarrow> lexical_index_fits R q"
    for sf'
  proof -
    from retrieve_text_total [OF that(3,4,5)] obtain found where
      f: "retrieve_text R q sf' k h = Inr found" by blast
    with sound [OF f that(1,2)] show ?thesis by blast
  qed
  have c1: "table_data_sentences R = None \<or> table_data_sentences R = Some [] \<longrightarrow>
      retrieve_tables R q sf k h = retrieve_text R q sf k h \<and>
      (is_table_centric ri \<longrightarrow>
         retrieve R q ri ks k h = retrieve R q (ri\<lparr>is_table_centric := False\<rparr>) ks k h)"
    using fallback by (simp add: retrieve_def Let_def split: sum.splits)
  have c2: "retrieve_text R q sf k h = Inr out \<and> 0 < k \<and> text_index R (encode R q) (k * 2) \<noteq> [] \<longrightarrow>
      out \<noteq> [] \<and>
      (\<forall>r \<in> set out. content r \<in> set (text_data_chunks R) \<and> metadata r \<in> set (text_data_metadata R))"
    using sound by blast
  have c3: "0 < k \<and> text_index R (encode R q) (k * 2) \<noteq> [] \<and>
    positions_in_range (text_index R (encode R q) (k * 2)) (length (text_data_chunks R)) \<and>
    length (text_data_metadata R) = length (text_data_chunks R) \<and>
    (h \<longrightarrow> lexical_index_fits R q) \<longrightarrow>
      (\<exists>found. retrieve_text R q sf k h = Inr found \<and> found \<noteq> [] \<and>
         (\<forall>r \<in> set found. content r \<in> set (text_data_chunks R) \<and>
                            metadata r \<in> set (text_data_metadata R)))"
    using total by blast
  have c4: "(table_data_sentences R = None \<or> table_data_sentences R = Some []) \<and> is_table_centric ri \<and>
    0 < k \<and> text_index R (encode R q) (k * 2) \<noteq> [] \<and>
    positions_in_range (text_index R (encode R q) (k * 2)) (length (text_data_chunks R)) \<and>
    length (text_data_metadata R) = length (text_data_chunks R) \<and>
    (h \<longrightarrow> lexical_index_fits R q) \<and>
    positions_in_range (section_index R (encode R q) ks) (length (section_data_abstracts R)) \<and>
    length (section_data_metadata R) = length (section_data_abstracts R) \<longrightarrow>
      (\<exists>secs found. retrieve R q ri ks k h = Inr \<lparr>sections = secs, retrieved_content = found\<rparr> \<and>
         found \<noteq> [] \<and>
         (\<forall>r \<in> set found. content r \<in> set (text_data_chunks R) \<and>
                            metadata r \<in> set (text_data_metadata R)))"
  proof (intro impI, elim conjE)
    assume e: "table_data_sentences R = None \<or> table_data_sentences R = Some []"
      and tc: "is_table_centric ri"
      and t: "0 < k" "text_index R (encode R q) (k * 2) \<noteq> []"
        "positions_in_range (text_index R (encode R q) (k * 2)) (length (text_data_chunks R))"
        "length (text_data_metadata R) = length (text_data_chunks R)"
        "h \<longrightarrow> lexical_index_fits R q"
      and s: "positions_in_range (section_index R (encode R q) ks) (length (section_data_abstracts R))"
        "length (section_data_metadata R) = length (section_data_abstracts R)"
    from collect_sections_total [OF s] obtain secs where
      secs: "retrieve_sections R q ks = Inr secs"
      by (auto simp: retrieve_sections_def Let_def)
    let ?ids = "map (\<lambda>s. (ticker (abstract_metadata s), fiscal_year (abstract_metadata s),
                           section_title (abstract_metadata s))) secs"
    from total [OF t, of ?ids] obtain found where
      f: "retrieve_text R q ?ids k h = Inr found" "found \<noteq> []"
        "\<forall>r \<in> set found. content r \<in> set (text_data_chunks R) \<and>
                           metadata r \<in> set (text_data_metadata R)"
      by blast
    have "retrieve R q ri ks k h = Inr \<lparr>sections = secs, retrieved_content = found\<rparr>"
      using secs tc f(1) fallback [OF e] by (simp add: retrieve_def Let_def)
    with f(2,3) show "\<exists>secs found. retrieve R q ri ks k h
          = Inr \<lparr>sections = secs, retrieved_content = found\<rparr> \<and> found \<noteq> [] \<and>
         (\<forall>r \<in> set found. content r \<in> set (text_data_chunks R) \<and>
                            metadata r \<in> set (text_data_metadata R))"
      by blast
  qed
  from c1 c2 c3 c4 show ?thesis by blast
qed

text \<open>
  Hybrid retrieval over an empty table corpus, one text chunk and a lexical index of one score.
\<close>

theorem empty_table_fallback_witness:
  "retrieve ((example_retriever [''c0''] [(1, 0)] (Some []) [])
               \<lparr>text_data_bm25 := Some (Some (\<lambda>tokens. [2]))\<rparr>)
       ''q'' table_route 5 1 True
     = Inr \<lparr>sections = [\<lparr>section_abstract = ''Item 7. Management discussion'',
                            abstract_metadata = example_metadata, abstract_score = 1 / 2\<rparr>],
            retrieved_content = [\<lparr>content = ''c0'', metadata = example_metadata, score = 0.95\<rparr>]\<rparr> \<and>
   (\<exists>secs found.
      retrieve ((example_retriever [''c0''] [(1, 0)] (Some []) [])
                  \<lparr>text_data_bm25 := Some (Some (\<lambda>tokens. [2]))\<rparr>)
          ''q'' table_route 5 1 True
        = Inr \<lparr>sections = secs, retrieved_content = found\<rparr> \<and> found \<noteq> []) \<and>
   retrieve_tables ((example_retriever [''c0''] [(1, 0)] (Some []) [])
                      \<lparr>text_data_bm25 := Some (Some (\<lambda>tokens. [2]))\<rparr>) ''q'' [] 1 True
     = retrieve_text ((example_retriever [''c0''] [(1, 0)] (Some []) [])
                        \<lparr>text_data_bm25 := Some (Some (\<lambda>tokens. [2]))\<rparr>) ''q'' [] 1 True"
proof -
  let ?R = "(example_retriever [''c0''] [(1, 0)] (Some []) [])
              \<lparr>text_data_bm25 := Some (Some (\<lambda>tokens. [2]))\<rparr>"
  note inst = empty_table_fallback [of ?R "''q''" "[]" 1 True table_route 5 "[]"]
  have e: "table_data_sentences ?R = None \<or> table_data_sentences ?R = Some []"
    by (simp add: example_retriever_def)
  have tc: "is_table_centric table_route" by (simp add: table_route_def)
  have t: "(0 :: int) < 1" "text_index ?R (encode ?R ''q'') (1 * 2) \<noteq> []"
    "positions_in_range (text_index ?R (encode ?R ''q'') (1 * 2)) (length (text_data_chunks ?R))"
    "length (text_data_metadata ?R) = length (text_data_chunks ?R)"
    "True \<longrightarrow> lexical_index_fits ?R ''q''"
    by (simp_all add: example_retriever_def positions_in_range_def lexical_index_fits_def)
  have s: "positions_in_range (section_index ?R (encode ?R ''q'') 5) (length (section_data_abstracts ?R))"
    "length (section_data_metadata ?R) = length (section_data_abstracts ?R)"
    by (simp_all add: example_retriever_def positions_in_range_def)
  have val: "retrieve ?R ''q'' table_route 5 1 True
     = Inr \<lparr>sections = [\<lparr>section_abstract = ''Item 7. Management discussion'',
                            abstract_metadata = example_metadata, abstract_score = 1 / 2\<rparr>],
            retrieved_content = [\<lparr>content = ''c0'', metadata = example_metadata, score = 0.95\<rparr>]\<rparr>"
    by (simp add: retrieval_defs merge_results_def key_def default_alpha_def)
  from inst [THEN conjunct2, THEN conjunct2, THEN conjunct2] e tc t s
  have "\<exists>secs found. retrieve ?R ''q'' table_route 5 1 True
          = Inr \<lparr>sections = secs, retrieved_content = found\<rparr> \<and> found \<noteq> []"
    by blast
  moreover from inst [THEN conjunct1] e
  have "retrieve_tables ?R ''q'' [] 1 True = retrieve_text ?R ''q'' [] 1 True" by blast
  ultimately show ?thesis using val by blast
qed

text \<open>
  The claim as stated fails: with an empty table corpus and a text corpus of one chunk, a cutoff
  of 0 yields an empty content list; a position outside the text corpus raises \<open>IndexError\<close>;
  a lexical index that is \<open>None\<close> raises \<open>AttributeError\<close>; and a lexical index that scores two
  documents raises \<open>IndexError\<close>.
\<close>

theorem empty_table_fallback_counterexample:
  "retrieve (example_retriever [''c0''] [(1, 0)] (Some []) []) ''q'' table_route 5 0 True
     = Inr \<lparr>sections = [\<lparr>section_abstract = ''Item 7. Management discussion'',
                            abstract_metadata = example_metadata, abstract_score = 1 / 2\<rparr>],
            retrieved_content = []\<rparr> \<and>
   retrieve (example_retriever [''c0''] [(1, 3)] (Some []) []) ''q'' table_route 5 10 True
     = Inl IndexError \<and>
   retrieve ((example_retriever [''c0''] [(1, 0)] (Some []) [])\<lparr>text_data_bm25 := Some None\<rparr>)
       ''q'' table_route 5 10 True
     = Inl AttributeError \<and>
   retrieve ((example_retriever [''c0''] [(1, 0)] (Some []) [])
               \<lparr>text_data_bm25 := Some (Some (\<lambda>tokens. [1, 2]))\<rparr>)
       ''q'' table_route 5 10 True
     = Inl IndexError"
  by (simp add: retrieval_defs)

subsection \<open>C3: verification of lookup answers\<close>

text \<open>
  Claim C3, as amended. For a query whose calculation type is lookup: when no number is extracted
  from the answer the status is \<open>no_numbers\<close>; otherwise the status is \<open>verified\<close> if every
  number of the answer matches some number of the table-typed evidence, and \<open>failed\<close> if not.
  A number \<open>a\<close> matches \<open>e\<close> when \<open>\<bar>(a - e) / e\<bar> < tol\<close> for \<open>e \<noteq> 0\<close>, and when \<open>\<bar>a\<bar> < tol\<close> for
  \<open>e = 0\<close>, where the difference, the quotient and the tolerance are double-precision values.
  The evidence numbers come only from the pieces whose content type is \<open>table\<close>. With the
  default tolerance the answer \<open>Revenue was 100\<close> is verified against the evidence number 100.5
  and failed against 90.
\<close>

theorem verify_lookup_status:
  "(detect_calculation_type query answer = Lookup \<longrightarrow>
     status (verify tol answer evidence query) =
       (if extract_numbers_text answer = [] then no_numbers
        else if (\<forall>a \<in> set (extract_numbers_text answer).
                  \<exists>e \<in> set (concat (map (\<lambda>ev. extract_numbers_text (content ev))
                                 (filter (\<lambda>ev. content_type (metadata ev) = ''table'') evidence))).
                    if e = Fin 0 then fl_less (fl_abs a) tol
                    else fl_less (fl_abs (fl_div (fl_sub a e) e)) tol)
        then verified else failed)) \<and>
   status (verify default_tolerance ''Revenue was 100'' [table_piece ''100.5''] ''What was revenue?'') = verified \<and>
   status (verify default_tolerance ''Revenue was 100'' [table_piece ''90''] ''What was revenue?'') = failed"
proof (intro conjI impI)
  assume "detect_calculation_type query answer = Lookup"
  then show "status (verify tol answer evidence query) =
       (if extract_numbers_text answer = [] then no_numbers
        else if (\<forall>a \<in> set (extract_numbers_text answer).
                  \<exists>e \<in> set (concat (map (\<lambda>ev. extract_numbers_text (content ev))
                                 (filter (\<lambda>ev. content_type (metadata ev) = ''table'') evidence))).
                    if e = Fin 0 then fl_less (fl_abs a) tol
                    else fl_less (fl_abs (fl_div (fl_sub a e) e)) tol)
        then verified else failed)"
    unfolding table_evidence_numbers_eq [symmetric] verify_presence_iff [symmetric]
    by (cases "verify_presence tol (extract_numbers_text answer) (table_evidence_numbers evidence)")
       (simp_all add: verify_def Let_def)
next
  have q: "detect_calculation_type ''What was revenue?'' ''Revenue was 100'' = Lookup"
    by (simp add: detect_calculation_type_def Let_def lower_def lower_char_def)
  have a: "extract_numbers_text ''Revenue was 100'' = [Fin 100]" by (simp add: eval_defs)
  have e1: "extract_numbers_text ''100.5'' = [Fin (201 / 2)]" by (simp add: eval_defs)
  have e2: "extract_numbers_text ''90'' = [Fin 90]" by (simp add: eval_defs)
  have t: "default_tolerance = Fin (5764607523034235 / 576460752303423488)"
    by (simp add: default_tolerance_def eval_defs)
  have m1: "numbers_match default_tolerance (Fin 100) (Fin (201 / 2))"
    unfolding t by (simp add: numbers_match_def eval_defs)
  have m2: "\<not> numbers_match default_tolerance (Fin 100) (Fin 90)"
    unfolding t by (simp add: numbers_match_def eval_defs)
  show "status (verify default_tolerance ''Revenue was 100'' [table_piece ''100.5''] ''What was revenue?'') = verified"
    by (simp add: verify_def Let_def q a e1 table_piece_def verify_presence_def m1)
  show "status (verify default_tolerance ''Revenue was 100'' [table_piece ''90''] ''What was revenue?'') = failed"
    by (simp add: verify_def Let_def q a e2 table_piece_def verify_presence_def m2)
qed

text \<open>
  An answer with a unit, checked against two table rows.
\<close>

theorem verify_lookup_status_witness:
  "detect_calculation_type ''What were total assets?'' ''Assets were 250M'' = Lookup \<and>
   status (verify default_tolerance ''Assets were 250M''
             [table_piece ''Total assets: 251000000'', table_piece ''Cash: 40''] ''What were total assets?'') = verified"
proof -
  have q: "detect_calculation_type ''What were total assets?'' ''Assets were 250M'' = Lookup"
    by (simp add: detect_calculation_type_def Let_def lower_def lower_char_def)
  have a: "extract_numbers_text ''Assets were 250M'' = [Fin 250000000]" by (simp add: eval_defs)
  have e1: "extract_numbers_text ''Total assets: 251000000'' = [Fin 251000000]" by (simp add: eval_defs)
  have e2: "extract_numbers_text ''Cash: 40'' = [Fin 40]" by (simp add: eval_defs)
  have t: "default_tolerance = Fin (5764607523034235 / 576460752303423488)"
    by (simp add: default_tolerance_def eval_defs)
  have m: "fl_less (fl_abs (fl_div (fl_sub (Fin 250000000) (Fin 251000000)) (Fin 251000000)))
             default_tolerance"
    unfolding t by (simp add: eval_defs)
  show ?thesis
    using verify_lookup_status [of "''What were total assets?''" "''Assets were 250M''" default_tolerance
        "[table_piece ''Total assets: 251000000'', table_piece ''Cash: 40'']"] m
    by (simp add: q a e1 e2 table_piece_def)
qed

text \<open>
  The claim as stated fails in two ways. For an answer without numbers every number of the answer
  matches (there is none), yet the status is \<open>no_numbers\<close> and not \<open>verified\<close>. And the answer
  \<open>It was 9.9\<close> is verified against the evidence number 10, although \<open>\<bar>9.9 - 10\<bar> / \<bar>10\<bar>\<close> is
  exactly 0.01 and not less: the double nearest to 9.9 lies above it, and the rounded quotient
  lies below the double nearest to 0.01.
\<close>

theorem verify_lookup_counterexample:
  "detect_calculation_type ''What was revenue?'' ''Revenue was strong'' = Lookup \<and>
   extract_numbers_text ''Revenue was strong'' = [] \<and>
   status (verify default_tolerance ''Revenue was strong'' [table_piece ''100.5''] ''What was revenue?'')
     = no_numbers \<and>
   detect_calculation_type ''What was it?'' ''It was 9.9'' = Lookup \<and>
   status (verify default_tolerance ''It was 9.9'' [table_piece ''10''] ''What was it?'') = verified \<and>
   \<not> \<bar>99 / 10 - 10\<bar> / \<bar>10\<bar> < (1 / 100 :: real)"
proof -
  have q: "detect_calculation_type ''What was it?'' ''It was 9.9'' = Lookup"
    by (simp add: detect_calculation_type_def Let_def lower_def lower_char_def)
  have a: "extract_numbers_text ''It was 9.9'' = [Fin (5573204538870989 / 562949953421312)]"
    by (simp add: eval_defs)
  have e: "extract_numbers_text ''10'' = [Fin 10]" by (simp add: eval_defs)
  have t: "default_tolerance = Fin (5764607523034235 / 576460752303423488)"
    by (simp add: default_tolerance_def eval_defs)
  have m: "numbers_match default_tolerance (Fin (5573204538870989 / 562949953421312)) (Fin 10)"
    unfolding t by (simp add: numbers_match_def eval_defs)
  have "status (verify default_tolerance ''It was 9.9'' [table_piece ''10''] ''What was it?'') = verified"
    by (simp add: verify_def Let_def q a e table_piece_def verify_presence_def m)
  moreover have "detect_calculation_type ''What was revenue?'' ''Revenue was strong'' = Lookup \<and>
      extract_numbers_text ''Revenue was strong'' = [] \<and>
      status (verify default_tolerance ''Revenue was strong'' [table_piece ''100.5''] ''What was revenue?'')
        = no_numbers"
    by (simp add: verify_def Let_def detect_calculation_type_def eval_defs)
  ultimately show ?thesis using q by simp
qed

subsection \<open>C4: magnitude units\<close>

text \<open>
  Claim C4 at the inputs it names. The pattern accepts a lower-case \<open>b\<close> or \<open>m\<close> as a unit and
  the unit is removed before the conversion, but the multiplier is applied only for an upper-case
  letter or a spelled-out word in the matched text: \<open>5b\<close> and \<open>5m\<close> yield 5, while \<open>5B\<close> and
  \<open>5M\<close> yield \<open>5 * 10^9\<close> and \<open>5 * 10^6\<close>.
\<close>

theorem extract_numbers_lowercase_units:
  "extract_numbers_text ''5b'' = [Fin 5] \<and> extract_numbers_text ''5B'' = [Fin 5000000000] \<and>
   extract_numbers_text ''5m'' = [Fin 5] \<and> extract_numbers_text ''5M'' = [Fin 5000000]"
  by (simp add: eval_defs)

subsection \<open>C5: the math keywords\<close>

text \<open>
  Claim C5, as amended. \<open>requires_math\<close> holds exactly when one of the eleven keywords of the
  router occurs in the lower-cased query: the nine keywords of the claim and, in addition,
  \<open>sum\<close> and \<open>total\<close>.
\<close>

theorem requires_math_keywords:
  "requires_math (route q) \<longleftrightarrow>
     (\<exists>kw \<in> {''calculate'', ''compute'', ''difference'', ''sum'', ''total'', ''ratio'',
             ''percentage'', ''change'', ''growth'', ''increase'', ''decrease''}.
        \<exists>ps ss. lower q = ps @ kw @ ss)"
  by (simp add: route_def router_requires_math_def Let_def math_keywords_def py_in_iff del: py_in.simps)

text \<open>
  A query that contains only \<open>sum\<close>, in upper case, and a query without any keyword.
\<close>

theorem requires_math_keywords_witness: "requires_math (route ''What is the SUM of fees?'') \<and> \<not> requires_math (route ''Who is the CEO?'')"
  using requires_math_keywords [of "''What is the SUM of fees?''"] requires_math_keywords [of "''Who is the CEO?''"]
  by (simp add: lower_def lower_char_def py_in_iff [symmetric])

text \<open>
  The claim as stated fails: \<open>Total assets\<close> contains none of the nine keywords and requires
  math.
\<close>

theorem requires_math_counterexample: "requires_math (route ''Total assets'') \<noteq> spec_requires_math ''Total assets''"
  by (simp add: route_def router_requires_math_def spec_requires_math_def Let_def lower_def
      lower_char_def math_keywords_def spec_math_keywords_def)

subsection \<open>C6: the table-centric threshold\<close>

text \<open>
  Claim C6. \<open>is_table_centric\<close> holds exactly when at least two distinct keywords of the
  table-keyword list occur in the query regardless of case (\<open>occurs_ignoring_case\<close>); with
  exactly one such keyword it does not hold.
\<close>

theorem table_centric_threshold:
  "(is_table_centric (route q) \<longleftrightarrow>
      2 \<le> card {kw \<in> set table_keywords. occurs_ignoring_case kw q}) \<and>
   (card {kw \<in> set table_keywords. occurs_ignoring_case kw q} = 1 \<longrightarrow>
      \<not> is_table_centric (route q))"
proof -
  have "is_table_centric (route q)
        \<longleftrightarrow> 2 \<le> length (filter (\<lambda>kw. py_in kw (lower q)) table_keywords)"
    by (simp add: route_def router_is_table_centric_def Let_def sum_ones_length)
  then show ?thesis by (simp add: matching_count)
qed

text \<open>
  A query with two keywords in upper case, and a query with exactly one, also in upper case.
\<close>

lemma route_two: "is_table_centric (route ''REVENUE and DEBT'')"
  by (simp add: route_def router_is_table_centric_def Let_def lower_def lower_char_def table_keywords_def)

lemma route_one: "card {kw \<in> set table_keywords. occurs_ignoring_case kw ''Was the TOTAL high?''} = 1"
  unfolding matching_count
  by (simp add: lower_def lower_char_def table_keywords_def)

theorem table_centric_threshold_witness:
  "2 \<le> card {kw \<in> set table_keywords. occurs_ignoring_case kw ''REVENUE and DEBT''} \<and>
   is_table_centric (route ''REVENUE and DEBT'') \<and>
   \<not> is_table_centric (route ''Was the TOTAL high?'')"
  using table_centric_threshold [of "''REVENUE and DEBT''"]
        table_centric_threshold [of "''Was the TOTAL high?''"] route_two route_one
  by simp

subsection \<open>C7: repeated keys in fusion\<close>

text \<open>
  Claim C7, as amended. In both fusion strategies the contributions of a key that is repeated in
  the lexical list are added up, while in the dense list a later occurrence of a key replaces an
  earlier one. The final score of a key is the weighted contribution of its last dense occurrence
  (if any) plus the sum of the weighted contributions of all its lexical occurrences
  (\<open>weighted_total\<close> and \<open>rrf_total\<close>). For reciprocal rank fusion this holds for the full ranking
  and hence for every pair that \<open>fuse_results\<close> returns.
\<close>

theorem fusion_repeated_keys:
  "map_of (map (\<lambda>r. (key r, score r)) (merge_results ds bs \<alpha>)) k =
     (if k \<in> key ` (set ds \<union> set bs) then Some (weighted_total \<alpha> ds bs k) else None) \<and>
   map_of (fuse_sorted_ids S hs ls) j =
     (if j \<in> doc_id ` (set hs \<union> set ls) then Some (rrf_total S hs ls j) else None) \<and>
   (\<forall>p \<in> set (fuse_results S hs ls top_k). snd p = rrf_total S hs ls (fst p))"
proof (intro conjI ballI)
  show "map_of (map (\<lambda>r. (key r, score r)) (merge_results ds bs \<alpha>)) k =
     (if k \<in> key ` (set ds \<union> set bs) then Some (weighted_total \<alpha> ds bs k) else None)"
    by (rule weighted_scores)
next
  show "map_of (fuse_sorted_ids S hs ls) j =
     (if j \<in> doc_id ` (set hs \<union> set ls) then Some (rrf_total S hs ls j) else None)"
    by (rule rrf_scores)
next
  fix p assume "p \<in> set (fuse_results S hs ls top_k)"
  then have "p \<in> set (fuse_sorted_ids S hs ls)"
    using py_slice_to_subset [of "fuse_sorted_ids S hs ls" top_k] by (auto simp: fuse_results_def)
  then have "map_of (fuse_sorted_ids S hs ls) (fst p) = Some (snd p)"
    by (simp add: fuse_sorted_ids_distinct)
  then show "snd p = rrf_total S hs ls (fst p)"
    by (simp add: rrf_scores split: if_splits)
qed

text \<open>
  A key that occurs twice in the dense list and twice in the lexical list.
\<close>

theorem fusion_repeated_keys_witness:
  "map_of (map (\<lambda>r. (key r, score r))
       (merge_results [\<lparr>content = ''a'', metadata = example_metadata, score = 0.9\<rparr>,
                       \<lparr>content = ''a'', metadata = example_metadata, score = 0.5\<rparr>]
                      [\<lparr>content = ''a'', metadata = example_metadata, score = 0.4\<rparr>,
                       \<lparr>content = ''a'', metadata = example_metadata, score = 0.2\<rparr>] 0.7)) ''a''
     = Some 0.53 \<and>
   map_of (fuse_sorted_ids \<lparr>dense_weight = 0.7, bm25_weight = 0.3\<rparr>
       [\<lparr>hit_id = Some (1 :: nat), hit_str = ''h''\<rparr>, \<lparr>hit_id = Some 1, hit_str = ''h''\<rparr>]
       [\<lparr>hit_id = Some 1, hit_str = ''h''\<rparr>, \<lparr>hit_id = Some 2, hit_str = ''g''\<rparr>,
        \<lparr>hit_id = Some 1, hit_str = ''h''\<rparr>]) (Inl 1)
     = Some 0.75 \<and>
   fuse_results \<lparr>dense_weight = 0.7, bm25_weight = 0.3\<rparr>
       [\<lparr>hit_id = Some (1 :: nat), hit_str = ''h''\<rparr>, \<lparr>hit_id = Some 1, hit_str = ''h''\<rparr>]
       [\<lparr>hit_id = Some 1, hit_str = ''h''\<rparr>, \<lparr>hit_id = Some 2, hit_str = ''g''\<rparr>,
        \<lparr>hit_id = Some 1, hit_str = ''h''\<rparr>] 1
     = [(Inl 1, 0.75)]"
proof -
  let ?ds = "[\<lparr>content = ''a'', metadata = example_metadata, score = 0.9\<rparr>,
              \<lparr>content = ''a'', metadata = example_metadata, score = 0.5\<rparr>]"
  let ?bs = "[\<lparr>content = ''a'', metadata = example_metadata, score = 0.4\<rparr>,
              \<lparr>content = ''a'', metadata = example_metadata, score = 0.2\<rparr>]"
  let ?S = "\<lparr>dense_weight = 0.7, bm25_weight = 0.3\<rparr>"
  let ?hs = "[\<lparr>hit_id = Some (1 :: nat), hit_str = ''h''\<rparr>, \<lparr>hit_id = Some 1, hit_str = ''h''\<rparr>]"
  let ?ls = "[\<lparr>hit_id = Some (1 :: nat), hit_str = ''h''\<rparr>, \<lparr>hit_id = Some 2, hit_str = ''g''\<rparr>,
              \<lparr>hit_id = Some 1, hit_str = ''h''\<rparr>]"
  note inst = fusion_repeated_keys [of ?ds ?bs "0.7" "''a''" ?S ?hs ?ls "Inl 1" 1]
  have "map_of (map (\<lambda>r. (key r, score r)) (merge_results ?ds ?bs 0.7)) ''a'' = Some 0.53"
    using inst [THEN conjunct1] by (simp add: weighted_total_def key_def)
  moreover
  have "map_of (fuse_sorted_ids ?S ?hs ?ls) (Inl 1) = Some 0.75"
    using inst [THEN conjunct2, THEN conjunct1] by (simp add: rrf_total_def doc_id_def)
  moreover
  have "fuse_results ?S ?hs ?ls 1 = [(Inl 1, 0.75)]"
    by (simp add: fuse_results_def fuse_sorted_ids_def doc_id_def py_slice_to_def)
  ultimately show ?thesis by simp
qed

text \<open>
  The claim as stated fails: for a key that occurs twice in the dense list, both strategies keep
  the contribution of the second occurrence only (0.35 in both examples), where the sum of all
  contributions is 0.98 and 1.05.
\<close>

theorem fusion_repeated_keys_counterexample:
  "map (\<lambda>r. (key r, score r))
       (merge_results [\<lparr>content = ''a'', metadata = example_metadata, score = 0.9\<rparr>,
                       \<lparr>content = ''a'', metadata = example_metadata, score = 0.5\<rparr>] [] 0.7)
     = [(''a'', 0.35)] \<and>
   spec_weighted_total 0.7 [\<lparr>content = ''a'', metadata = example_metadata, score = 0.9\<rparr>,
                            \<lparr>content = ''a'', metadata = example_metadata, score = 0.5\<rparr>] [] ''a''
     = 0.98 \<and>
   fuse_sorted_ids \<lparr>dense_weight = 0.7, bm25_weight = 0.3\<rparr>
       [\<lparr>hit_id = Some (1 :: nat), hit_str = ''h''\<rparr>, \<lparr>hit_id = Some 1, hit_str = ''h''\<rparr>] []
     = [(Inl 1, 0.35)] \<and>
   spec_rrf_total \<lparr>dense_weight = 0.7, bm25_weight = 0.3\<rparr>
       [\<lparr>hit_id = Some (1 :: nat), hit_str = ''h''\<rparr>, \<lparr>hit_id = Some 1, hit_str = ''h''\<rparr>] [] (Inl 1)
     = 1.05"
  by (simp add: merge_results_def key_def spec_weighted_total_def fuse_sorted_ids_def doc_id_def
      spec_rrf_total_def)

subsection \<open>C8: positions out of range\<close>

text \<open>
  Claim C8 at a position outside the corpus. The text branch reads the chunk at every position
  the search returns: position 3 in a corpus of one chunk raises \<open>IndexError\<close>, and so does the
  padding position \<open>-1\<close> over an empty corpus. The table branch skips position 3 and goes on.
\<close>

theorem retrieve_text_out_of_range:
  "retrieve_text (example_retriever [''c0''] [(1, 3)] None []) ''q'' [] 1 False = Inl IndexError \<and>
   retrieve_tables (example_retriever [''c0''] [] (Some [''s0'']) [(1, 3), (3, 0)]) ''q'' [] 1 False
     = Inr [\<lparr>content = ''s0'', metadata = example_metadata\<lparr>content_type := ''table''\<rparr>,
             score = 1 / 4\<rparr>] \<and>
   retrieve_text (example_retriever [] [(1, - 1)] None []) ''q'' [] 1 False = Inl IndexError"
  by (simp add: retrieval_defs)

subsection \<open>C9: recall at k\<close>

text \<open>
  Claim C9. For every ranking, every set of relevant items and all cutoffs \<open>k1 \<le> k2\<close> (natural
  numbers), recall at \<open>k1\<close> is at most recall at \<open>k2\<close>.
\<close>

theorem recall_at_k_monotone:
  fixes k1 k2 :: nat
  assumes "k1 \<le> k2"
  shows "compute_recall_at_k retrieved relevant (int k1)
           \<le> compute_recall_at_k retrieved relevant (int k2)"
proof (cases "fcard relevant = 0")
  case True
  then show ?thesis by (simp add: compute_recall_at_k_def)
next
  case False
  have "set (py_slice_to retrieved (int k1)) \<subseteq> set (py_slice_to retrieved (int k2))"
    using assms by (intro slice_subset) simp_all
  then have "fset_of_list (py_slice_to retrieved (int k1)) |\<inter>| relevant
        |\<subseteq>| fset_of_list (py_slice_to retrieved (int k2)) |\<inter>| relevant"
    by (auto simp: fset_of_list.rep_eq)
  then have "fcard (fset_of_list (py_slice_to retrieved (int k1)) |\<inter>| relevant)
        \<le> fcard (fset_of_list (py_slice_to retrieved (int k2)) |\<inter>| relevant)"
    by (rule fcard_mono)
  then show ?thesis
    using False by (simp add: compute_recall_at_k_def Let_def divide_right_mono)
qed

text \<open>
  Cutoffs 1 and 3 over a ranking of three items, two of them relevant.
\<close>

theorem recall_at_k_monotone_witness:
  "compute_recall_at_k [''a'', ''b'', ''c''] {|''a'', ''c''|} (int 1)
     \<le> compute_recall_at_k [''a'', ''b'', ''c''] {|''a'', ''c''|} (int 3) \<and>
   compute_recall_at_k [''a'', ''b'', ''c''] {|''a'', ''c''|} (int 1) = 1 / 2 \<and>
   compute_recall_at_k [''a'', ''b'', ''c''] {|''a'', ''c''|} (int 3) = 1"
proof -
  have "compute_recall_at_k [''a'', ''b'', ''c''] {|''a'', ''c''|} (int 1)
     \<le> compute_recall_at_k [''a'', ''b'', ''c''] {|''a'', ''c''|} (int 3)"
    using recall_at_k_monotone [of 1 3 "[''a'', ''b'', ''c'']" "{|''a'', ''c''|}"] by simp
  moreover have "compute_recall_at_k [''a'', ''b'', ''c''] {|''a'', ''c''|} (int 1) = 1 / 2"
    by (simp add: compute_recall_at_k_def py_slice_to_def Let_def fcard_finsert_if)
  moreover have "compute_recall_at_k [''a'', ''b'', ''c''] {|''a'', ''c''|} (int 3) = 1"
    by (simp add: compute_recall_at_k_def py_slice_to_def Let_def fcard_finsert_if)
  ultimately show ?thesis by simp
qed

subsection \<open>C10: extraction from a list of evidence\<close>

text \<open>
  Claim C10. On a list, \<open>extract_numbers\<close> returns the concatenation, in list order, of the
  numbers of each item: for a dictionary those of its \<open>content\<close> entry (of the empty string when
  the entry is missing, which yields no number), for any other item those of its rendering as a
  string.
\<close>

theorem extract_numbers_list:
  "extract_numbers render (PList items) =
     concat (map (\<lambda>item. case item of
                    PDict d \<Rightarrow> extract_numbers render
                                (case map_of d ''content'' of Some c \<Rightarrow> c | None \<Rightarrow> PStr [])
                  | _ \<Rightarrow> extract_numbers render (PStr (py_str render item))) items)
   \<and> extract_numbers render (PStr []) = []"
proof -
  have "(case item of
           PDict d \<Rightarrow> extract_numbers render (dict_get d ''content'' (PStr []))
         | _ \<Rightarrow> extract_numbers render (PStr (py_str render item)))
      = (case item of
           PDict d \<Rightarrow> extract_numbers render
                       (case map_of d ''content'' of Some c \<Rightarrow> c | None \<Rightarrow> PStr [])
         | _ \<Rightarrow> extract_numbers render (PStr (py_str render item)))" for item
    by (simp add: dict_get_def split: pyval.splits)
  then show ?thesis
    by (simp add: extend_step foldl_append_concat extract_numbers_text_def)
qed

text \<open>
  A list with a dictionary that has content, one that has none, an object and a nested list.
\<close>

theorem extract_numbers_list_witness:
  "extract_numbers (\<lambda>v. ''rendered 9'')
     (PList [PDict [(''content'', PStr ''Revenue 5B'')], PDict [(''id'', PStr ''1'')], PObj ''7.5'',
             PList [PStr ''8'']])
   = [Fin 5000000000, Fin (15 / 2), Fin 9]"
proof -
  have "extract_numbers (\<lambda>v. ''rendered 9'')
     (PList [PDict [(''content'', PStr ''Revenue 5B'')], PDict [(''id'', PStr ''1'')], PObj ''7.5'',
             PList [PStr ''8'']])
   = extract_numbers_text ''Revenue 5B'' @ extract_numbers_text [] @
     extract_numbers_text ''7.5'' @ extract_numbers_text ''rendered 9''"
    using extract_numbers_list [of "\<lambda>v. ''rendered 9''"
        "[PDict [(''content'', PStr ''Revenue 5B'')], PDict [(''id'', PStr ''1'')], PObj ''7.5'',
          PList [PStr ''8'']]"]
    by (simp del: extract_numbers.simps(1))
  then show ?thesis by (simp add: eval_defs)
qed

end

